theory Spec2Isabelle
  imports Complex_Main "HOL-Library.Log_Nat" "HOL-Library.Sublist"
begin

section \<open>JavaScript numbers\<close>

text \<open>
  The application is TypeScript: every number is an IEEE 754 binary64 value and every
  arithmetic operator returns the exact result rounded to the nearest representable
  value, ties to the even significand. Finite numbers are modelled as rationals.

  Integers of magnitude below \<open>2^53\<close> are represented exactly, and so are their sums and
  differences while these stay below that bound: array lengths, scores, question indices
  and millisecond timestamps are therefore \<open>nat\<close> and \<open>int\<close>. The quotients and products
  that leave the integers are rounded explicitly by \<open>fl\<close>, which keeps 53 significant
  bits. Overflow to \<open>Infinity\<close>, \<open>NaN\<close> and the subnormal range are outside the model;
  every quotient and product below has magnitude between \<open>2^-53\<close> and \<open>2^53\<close>, or is zero.
\<close>

type_synonym number = rat

text \<open>The binary exponent of a positive number: \<open>2^e \<le> x < 2^(e+1)\<close>.\<close>

definition expo :: "number \<Rightarrow> int" where
  "expo x = (if 1 \<le> x then bitlen \<lfloor>x\<rfloor> - 1 else - bitlen (\<lceil>1 / x\<rceil> - 1))"

text \<open>Rounding to the nearest integer, ties to even.\<close>

definition rne :: "number \<Rightarrow> int" where
  "rne r = (let f = \<lfloor>r\<rfloor>; d = r - of_int f
            in if d < 1 / 2 then f
               else if 1 / 2 < d then f + 1
               else if even f then f else f + 1)"

text \<open>Rounding to binary64: the significand is scaled into \<open>[2^52, 2^53)\<close> and rounded.\<close>

definition fl :: "number \<Rightarrow> number" where
  "fl x = (if x = 0 then 0
           else let e = expo \<bar>x\<bar>
                in of_int (rne (x * 2 powi (52 - e))) * 2 powi (e - 52))"

definition js_div :: "number \<Rightarrow> number \<Rightarrow> number" where
  "js_div a b = fl (a / b)"

definition js_mul :: "number \<Rightarrow> number \<Rightarrow> number" where
  "js_mul a b = fl (a * b)"

text \<open>
  \<open>Math.round\<close> is exact: the integer nearest to its argument, a tie going to the larger
  one.
\<close>

definition Math_round :: "number \<Rightarrow> int" where
  "Math_round x = \<lfloor>x + 1 / 2\<rfloor>"

text \<open>Rounding half up of an exact fraction \<open>a / b\<close>, the rounding the specification names.\<close>

definition round_half_up :: "int \<Rightarrow> int \<Rightarrow> int" where
  "round_half_up a b = \<lfloor>(of_int a :: rat) / of_int b + 1 / 2\<rfloor>"


section \<open>Data model (\<open>src/lib/supabase.ts\<close>)\<close>

datatype status = not_started | in_progress | completed

datatype content_type = video | text_content | interactive | quiz

text \<open>
  A row of a table is a record of the columns the code reads or writes. Columns that
  are only displayed (titles, descriptions, thumbnails, creation stamps) ride in the
  extension part of the record, so the functions below are stated over record schemes.
  Time stamps are instants in milliseconds since the epoch; the source carries them as
  ISO strings and compares them after \<open>new Date(...)\<close>. The primary key \<open>id\<close> of a
  table is the field \<open>ident\<close>, and the content type \<open>'text'\<close> is \<open>text_content\<close>.
\<close>

record Course =
  ident :: string

record Lesson =
  ident :: string
  course_id :: string
  content_type :: content_type

record Assessment =
  ident :: string
  lesson_id :: string
  correct_answer :: string

record UserAssessment =
  user_id :: string
  assessment_id :: string
  user_answer :: string
  is_correct :: bool
  time_taken_seconds :: int

text \<open>
  The object \<open>progressData\<close> built by \<open>updateProgress\<close>: the columns of one write.
  \<open>completed_at\<close> is \<open>None\<close> when the key is absent from the object.
\<close>

record progressData =
  user_id :: string
  lesson_id :: string
  course_id :: string
  status :: status
  completion_percentage :: int
  time_spent_minutes :: int
  last_accessed_at :: int
  completed_at :: "int option"

record UserProgress =
  ident :: string
  user_id :: string
  lesson_id :: string
  course_id :: string
  status :: status
  completion_percentage :: int
  time_spent_minutes :: int
  started_at :: int
  completed_at :: "int option"
  last_accessed_at :: int


section \<open>Progress aggregation\<close>

subsection \<open>\<open>ProgressDashboard\<close>\<close>

record WeeklyStats =
  lessonsThisWeek :: nat
  minutesThisWeek :: int

text \<open>
  Dates. A \<open>Date\<close> holds a time value: milliseconds since the epoch, in UTC; two dates are
  compared by their time values. The zone of the browser is a parameter, ECMAScript's
  \<open>LocalTZA(t, isUTC)\<close>: the offset of local time from UTC in milliseconds, at the UTC
  time value \<open>t\<close> when \<open>isUTC\<close> holds and at the local time value \<open>t\<close> otherwise.
  \<open>TimeClip\<close> is the identity on the time values of this application.
\<close>

type_synonym zone = "int \<Rightarrow> bool \<Rightarrow> int"

definition msPerDay :: int where
  "msPerDay = 86400000"

definition Day :: "int \<Rightarrow> int" where
  "Day t = t div msPerDay"

definition TimeWithinDay :: "int \<Rightarrow> int" where
  "TimeWithinDay t = t mod msPerDay"

definition MakeDate :: "int \<Rightarrow> int \<Rightarrow> int" where
  "MakeDate day time = day * msPerDay + time"

definition LocalTime :: "zone \<Rightarrow> int \<Rightarrow> int" where
  "LocalTime tza t = t + tza t True"

definition UTC :: "zone \<Rightarrow> int \<Rightarrow> int" where
  "UTC tza t = t - tza t False"

text \<open>
  \<open>const oneWeekAgo = new Date(); oneWeekAgo.setDate(oneWeekAgo.getDate() - 7)\<close>.
  \<open>setDate(d)\<close> takes the local time \<open>t\<close> of the date, builds
  \<open>MakeDate(MakeDay(year, month, d), TimeWithinDay(t))\<close> and converts it back with \<open>UTC\<close>.
  \<open>MakeDay(year, month, d)\<close> is the day number of the first of the month plus \<open>d - 1\<close>, and
  \<open>getDate()\<close> is the day number of \<open>t\<close> minus that of the first of the month plus 1: with
  \<open>d = getDate() - 7\<close> the day is \<open>Day(t) - 7\<close>, in the previous month when \<open>d\<close> is not
  positive.
\<close>

definition oneWeekAgo :: "zone \<Rightarrow> int \<Rightarrow> int" where
  "oneWeekAgo tza now =
     (let t = LocalTime tza now;
          newDate = MakeDate (Day t - 7) (TimeWithinDay t)
      in UTC tza newDate)"

definition calculateWeeklyStats :: "zone \<Rightarrow> int \<Rightarrow> UserProgress list \<Rightarrow> WeeklyStats" where
  "calculateWeeklyStats tza now userProgress =
     (let weeklyProgress =
            filter (\<lambda>p. oneWeekAgo tza now \<le> UserProgress.last_accessed_at p) userProgress
      in \<lparr> lessonsThisWeek =
             length (filter (\<lambda>p. UserProgress.status p = completed) weeklyProgress),
           minutesThisWeek =
             foldl (\<lambda>sum p. sum + UserProgress.time_spent_minutes p) 0 weeklyProgress \<rparr>)"

definition getCourseProgress :: "UserProgress list \<Rightarrow> string \<Rightarrow> int" where
  "getCourseProgress userProgress courseId =
     (let courseProgress = filter (\<lambda>p. UserProgress.course_id p = courseId) userProgress;
          completed_count = length (filter (\<lambda>p. UserProgress.status p = completed) courseProgress);
          total = length courseProgress
      in if 0 < total
         then Math_round (js_mul (js_div (of_nat completed_count) (of_nat total)) 100)
         else 0)"

definition activeCourses ::
  "'a Course_scheme list \<Rightarrow> UserProgress list \<Rightarrow> 'a Course_scheme list" where
  "activeCourses courses userProgress =
     filter (\<lambda>course.
        list_ex (\<lambda>p. UserProgress.course_id p = Course.ident course
                     \<and> UserProgress.status p \<noteq> not_started) userProgress) courses"

subsection \<open>\<open>CourseCard\<close>\<close>

definition CourseCard_progressPercentage :: "UserProgress list \<Rightarrow> int" where
  "CourseCard_progressPercentage progress =
     (let completedLessons = length (filter (\<lambda>p. UserProgress.status p = completed) progress);
          totalLessons = length progress
      in if 0 < totalLessons
         then Math_round (js_mul (js_div (of_nat completedLessons) (of_nat totalLessons)) 100)
         else 0)"

text \<open>\<open>Dashboard\<close> hands each card the records of its course.\<close>

definition Dashboard_card :: "UserProgress list \<Rightarrow> 'a Course_scheme \<Rightarrow> int" where
  "Dashboard_card userProgress course =
     CourseCard_progressPercentage
       (filter (\<lambda>p. UserProgress.course_id p = Course.ident course) userProgress)"

subsection \<open>\<open>CourseDetail\<close>\<close>

text \<open>
  \<open>lessons\<close> and \<open>userProgress\<close> are the two query results of \<open>loadLessons\<close>: the lessons
  of the course, and the signed-in user's progress rows of the course.
\<close>

definition CourseDetail_progressPercentage ::
  "'a Lesson_scheme list \<Rightarrow> UserProgress list \<Rightarrow> int" where
  "CourseDetail_progressPercentage lessons userProgress =
     (let completedCount = length (filter (\<lambda>p. UserProgress.status p = completed) userProgress)
      in if 0 < length lessons
         then Math_round (js_mul (js_div (of_nat completedCount) (of_nat (length lessons))) 100)
         else 0)"


section \<open>The lesson and quiz session (\<open>LessonView\<close>)\<close>

text \<open>
  The properties of the component: the signed-in user's id (\<open>None\<close> when \<open>useAuth\<close> has no
  user), the lesson and its course.
\<close>

record Env =
  user :: "string option"
  lesson :: Lesson
  course :: Course

text \<open>The component state, one field per \<open>useState\<close>.\<close>

record Session =
  assessments :: "Assessment list"
  currentQuestion :: nat
  selectedAnswer :: string
  showExplanation :: bool
  isCorrect :: "bool option"
  quizCompleted :: bool
  score :: nat
  startTime :: int

text \<open>
  What a handler asks of its collaborators, in the order of the calls: the query for the
  lesson's assessments, a write of \<open>progressData\<close> to \<open>user_progress\<close> (update or
  insert, see \<open>upsertProgress\<close> below), an insert into \<open>user_assessments\<close>, and the
  \<open>onClose\<close> callback.
\<close>

datatype effect =
    FetchAssessments string
  | UpsertProgress progressData
  | InsertAttempt UserAssessment
  | OnClose

datatype error = TypeError

text \<open>
  \<open>updateProgress\<close>, up to the object it builds. \<open>now\<close> is the clock when its
  synchronous part runs: \<open>Date.now()\<close> and the two \<open>new Date()\<close> are read back to back.
\<close>

definition updateProgress :: "Env \<Rightarrow> Session \<Rightarrow> status \<Rightarrow> int \<Rightarrow> int \<Rightarrow> effect list" where
  "updateProgress env st status' completionPercentage now =
     (case user env of
        None \<Rightarrow> []
      | Some uid \<Rightarrow>
          let timeSpent = Math_round (js_div (of_int (now - startTime st)) 60000)
          in [UpsertProgress
                \<lparr> progressData.user_id = uid,
                  progressData.lesson_id = Lesson.ident (lesson env),
                  progressData.course_id = Course.ident (course env),
                  progressData.status = status',
                  progressData.completion_percentage = completionPercentage,
                  progressData.time_spent_minutes = timeSpent,
                  progressData.last_accessed_at = now,
                  progressData.completed_at =
                    (if status' = completed then Some now else None) \<rparr>])"

text \<open>The first render: every \<open>useState\<close> takes its initial value, \<open>startTime\<close> the clock.\<close>

definition mount :: "int \<Rightarrow> Session" where
  "mount t0 =
     \<lparr> assessments = [], currentQuestion = 0, selectedAnswer = [],
       showExplanation = False, isCorrect = None, quizCompleted = False,
       score = 0, startTime = t0 \<rparr>"

text \<open>The effect that runs after the first render.\<close>

definition openSession :: "Env \<Rightarrow> int \<Rightarrow> Session \<Rightarrow> effect list" where
  "openSession env now st =
     (if Lesson.content_type (lesson env) = quiz
      then [FetchAssessments (Lesson.ident (lesson env))] else [])
     @ updateProgress env st in_progress 0 now"

text \<open>\<open>loadAssessments\<close>, when the query has answered.\<close>

definition setAssessments :: "Assessment list \<Rightarrow> Session \<Rightarrow> Session" where
  "setAssessments data st = st\<lparr>assessments := data\<rparr>"

text \<open>The click on an option button.\<close>

definition selectOption :: "string \<Rightarrow> Session \<Rightarrow> Session" where
  "selectOption option st =
     (if showExplanation st then st else st\<lparr>selectedAnswer := option\<rparr>)"

definition handleCompleteLesson :: "Env \<Rightarrow> int \<Rightarrow> Session \<Rightarrow> Session \<times> effect list" where
  "handleCompleteLesson env now st = (st, updateProgress env st completed 100 now @ [OnClose])"

text \<open>
  \<open>handleAnswerSubmit\<close>. The empty string is the only falsy string. Reading
  \<open>correct_answer\<close> of \<open>assessments[currentQuestion]\<close> throws when the index is out of
  range. \<open>t_attempt\<close> is the clock at \<open>timeTaken\<close>, \<open>t_progress\<close> the clock inside
  \<open>updateProgress\<close>, after the insert has been awaited.
\<close>

definition handleAnswerSubmit ::
  "Env \<Rightarrow> int \<Rightarrow> int \<Rightarrow> Session \<Rightarrow> error + Session \<times> effect list" where
  "handleAnswerSubmit env t_attempt t_progress st =
     (case user env of
        None \<Rightarrow> Inr (st, [])
      | Some uid \<Rightarrow>
          if selectedAnswer st = [] then Inr (st, [])
          else if length (assessments st) \<le> currentQuestion st then Inl TypeError
          else
            let currentAssessment = assessments st ! currentQuestion st;
                correct = (selectedAnswer st = Assessment.correct_answer currentAssessment);
                st' = st\<lparr> isCorrect := Some correct, showExplanation := True,
                          score := (if correct then score st + 1 else score st) \<rparr>;
                timeTaken = Math_round (js_div (of_int (t_attempt - startTime st)) 1000);
                progress =
                  Math_round
                    (js_mul (js_div (of_nat (currentQuestion st + 1))
                                    (of_nat (length (assessments st)))) 100)
            in Inr (st',
                    InsertAttempt
                      \<lparr> UserAssessment.user_id = uid,
                        assessment_id = Assessment.ident currentAssessment,
                        user_answer = selectedAnswer st,
                        is_correct = correct,
                        time_taken_seconds = timeTaken \<rparr>
                    # updateProgress env st in_progress progress t_progress))"

definition handleNextQuestion :: "Env \<Rightarrow> int \<Rightarrow> Session \<Rightarrow> Session \<times> effect list" where
  "handleNextQuestion env now st =
     (if int (currentQuestion st) < int (length (assessments st)) - 1
      then (st\<lparr> currentQuestion := currentQuestion st + 1, selectedAnswer := [],
                showExplanation := False, isCorrect := None \<rparr>, [])
      else (st\<lparr>quizCompleted := True\<rparr>, updateProgress env st completed 100 now))"

text \<open>
  The effect after the first render, the answer of the assessment query and the user's
  actions, each with its clock readings.
\<close>

datatype event =
    LessonOpened int
  | AssessmentsLoaded "Assessment list"
  | SelectOption string
  | SubmitAnswer int int
  | NextQuestion int
  | CompleteLesson int

fun step :: "Env \<Rightarrow> event \<Rightarrow> Session \<Rightarrow> error + Session \<times> effect list" where
  "step env (LessonOpened now) st = Inr (st, openSession env now st)"
| "step env (AssessmentsLoaded data) st = Inr (setAssessments data st, [])"
| "step env (SelectOption option) st = Inr (selectOption option st, [])"
| "step env (SubmitAnswer t1 t2) st = handleAnswerSubmit env t1 t2 st"
| "step env (NextQuestion now) st = Inr (handleNextQuestion env now st)"
| "step env (CompleteLesson now) st = Inr (handleCompleteLesson env now st)"

text \<open>A run of events, collecting the effects; it ends at the first uncaught exception.\<close>

fun run :: "Env \<Rightarrow> event list \<Rightarrow> Session \<times> effect list \<Rightarrow> error + Session \<times> effect list" where
  "run env [] cfg = Inr cfg"
| "run env (ev # evs) (st, fx) =
     (case step env ev st of
        Inl e \<Rightarrow> Inl e
      | Inr (st', fx') \<Rightarrow> run env evs (st', fx @ fx'))"

text \<open>
  The clock reading an event hands to \<open>updateProgress\<close>, and the one it hands to the
  attempt record (0 for the events that write nothing).
\<close>

fun progress_clock :: "event \<Rightarrow> int" where
  "progress_clock (LessonOpened now) = now"
| "progress_clock (SubmitAnswer t1 t2) = t2"
| "progress_clock (NextQuestion now) = now"
| "progress_clock (CompleteLesson now) = now"
| "progress_clock _ = 0"

fun attempt_clock :: "event \<Rightarrow> int" where
  "attempt_clock (SubmitAnswer t1 t2) = t1"
| "attempt_clock _ = 0"

text \<open>The states of the quiz, read off the render function.\<close>

definition AnsweringQuestion :: "nat \<Rightarrow> Session \<Rightarrow> bool" where
  "AnsweringQuestion i st \<longleftrightarrow>
     currentQuestion st = i \<and> i < length (assessments st)
     \<and> \<not> showExplanation st \<and> \<not> quizCompleted st"

text \<open>The writes to \<open>user_progress\<close> and to \<open>user_assessments\<close> among a list of effects.\<close>

fun upserts :: "effect list \<Rightarrow> progressData list" where
  "upserts [] = []"
| "upserts (UpsertProgress d # fx) = d # upserts fx"
| "upserts (_ # fx) = upserts fx"

fun attempts :: "effect list \<Rightarrow> UserAssessment list" where
  "attempts [] = []"
| "attempts (InsertAttempt a # fx) = a # attempts fx"
| "attempts (_ # fx) = attempts fx"


section \<open>The \<open>user_progress\<close> table\<close>

text \<open>
  The second half of \<open>updateProgress\<close> runs against the hosted table: it selects the rows of
  the user and the lesson with \<open>maybeSingle\<close> (the row when there is exactly one, \<open>null\<close>
  otherwise), updates the row of that id with the columns of \<open>progressData\<close>, or inserts
  \<open>progressData\<close> as a new row. An update sets the columns present in the object and
  leaves every other column of the row as it is. An insert takes the id and \<open>started_at\<close>
  from the column defaults (\<open>fresh\<close>, the server clock) and is refused when a row of the
  same user and lesson exists (the \<open>UNIQUE(user_id, lesson_id)\<close> constraint of the schema).
  Requests that fail on the way are not modelled.
\<close>

definition maybeSingle :: "'a list \<Rightarrow> 'a option" where
  "maybeSingle rows = (case rows of [r] \<Rightarrow> Some r | _ \<Rightarrow> None)"

definition update_columns :: "progressData \<Rightarrow> UserProgress \<Rightarrow> UserProgress" where
  "update_columns d r =
     r\<lparr> UserProgress.user_id := progressData.user_id d,
        UserProgress.lesson_id := progressData.lesson_id d,
        UserProgress.course_id := progressData.course_id d,
        UserProgress.status := progressData.status d,
        UserProgress.completion_percentage := progressData.completion_percentage d,
        UserProgress.time_spent_minutes := progressData.time_spent_minutes d,
        UserProgress.last_accessed_at := progressData.last_accessed_at d,
        UserProgress.completed_at :=
          (case progressData.completed_at d of
             None \<Rightarrow> UserProgress.completed_at r
           | Some t \<Rightarrow> Some t) \<rparr>"

definition insert_row :: "string \<Rightarrow> int \<Rightarrow> progressData \<Rightarrow> UserProgress" where
  "insert_row fresh server_now d =
     \<lparr> UserProgress.ident = fresh,
       UserProgress.user_id = progressData.user_id d,
       UserProgress.lesson_id = progressData.lesson_id d,
       UserProgress.course_id = progressData.course_id d,
       UserProgress.status = progressData.status d,
       UserProgress.completion_percentage = progressData.completion_percentage d,
       UserProgress.time_spent_minutes = progressData.time_spent_minutes d,
       UserProgress.started_at = server_now,
       UserProgress.completed_at = progressData.completed_at d,
       UserProgress.last_accessed_at = progressData.last_accessed_at d \<rparr>"

definition same_key :: "progressData \<Rightarrow> UserProgress \<Rightarrow> bool" where
  "same_key d r \<longleftrightarrow>
     UserProgress.user_id r = progressData.user_id d
     \<and> UserProgress.lesson_id r = progressData.lesson_id d"

definition upsertProgress ::
  "string \<Rightarrow> int \<Rightarrow> progressData \<Rightarrow> UserProgress list \<Rightarrow> UserProgress list" where
  "upsertProgress fresh server_now d table =
     (case maybeSingle (filter (same_key d) table) of
        Some existing \<Rightarrow>
          map (\<lambda>r. if UserProgress.ident r = UserProgress.ident existing
                    then update_columns d r else r) table
      | None \<Rightarrow>
          if list_ex (same_key d) table then table
          else table @ [insert_row fresh server_now d])"


section \<open>Reference notions of the specification\<close>


text \<open>
  The specification's time accounting of a progress record: elapsed minutes, truncated.
\<close>

definition spec_timeSpentMinutes :: "int \<Rightarrow> int \<Rightarrow> int" where
  "spec_timeSpentMinutes start now = (now - start) div 60000"

text \<open>
  The specification's \<open>weeklyStats\<close>: the records whose \<open>lastAccessedAt\<close> lies within the
  7 days, of 24 hours each, that precede the instant \<open>now\<close>, compared with \<open>\<ge>\<close>.
\<close>

definition spec_weeklyStats :: "int \<Rightarrow> UserProgress list \<Rightarrow> WeeklyStats" where
  "spec_weeklyStats now records =
     (let week = filter (\<lambda>p. now - 7 * 86400000 \<le> UserProgress.last_accessed_at p) records
      in \<lparr> lessonsThisWeek = length (filter (\<lambda>p. UserProgress.status p = completed) week),
           minutesThisWeek = sum_list (map UserProgress.time_spent_minutes week) \<rparr>)"


section \<open>Sample data\<close>

text \<open>
  Two zones: one with a fixed offset, and one that moves its clocks from one hour to two
  hours ahead of UTC at 2024-03-31T01:00Z (time value 1711846800000), as Central Europe
  did; the local times the change skips are read with the offset before the change.
\<close>

definition fixed_zone :: "int \<Rightarrow> zone" where
  "fixed_zone offset t isUTC = offset"

definition clock_change_zone :: zone where
  "clock_change_zone t isUTC =
     (if isUTC
      then (if t < 1711846800000 then 3600000 else 7200000)
      else (if t < 1711846800000 + 7200000 then 3600000 else 7200000))"

definition sample_env :: Env where
  "sample_env =
     \<lparr> user = Some ''u1'',
       lesson = \<lparr> Lesson.ident = ''l1'', Lesson.course_id = ''c1'', content_type = quiz \<rparr>,
       course = \<lparr> Course.ident = ''c1'' \<rparr> \<rparr>"

definition question :: "string \<Rightarrow> string \<Rightarrow> Assessment" where
  "question qid answer =
     \<lparr> Assessment.ident = qid, Assessment.lesson_id = ''l1'', correct_answer = answer \<rparr>"

definition progress_row ::
  "string \<Rightarrow> string \<Rightarrow> status \<Rightarrow> int \<Rightarrow> int \<Rightarrow> int option \<Rightarrow> UserProgress" where
  "progress_row lid cid s minutes accessed done =
     \<lparr> UserProgress.ident = ''p-'' @ lid, UserProgress.user_id = ''u1'',
       UserProgress.lesson_id = lid, UserProgress.course_id = cid,
       UserProgress.status = s,
       UserProgress.completion_percentage = (if s = completed then 100 else 0),
       UserProgress.time_spent_minutes = minutes, UserProgress.started_at = 0,
       UserProgress.completed_at = done, UserProgress.last_accessed_at = accessed \<rparr>"


section \<open>Rounding to binary64\<close>

lemma expo_bounds:
  assumes "0 < x"
  shows "2 powi (expo x) \<le> x" and "x < 2 powi (expo x + 1)"
proof -
  have "2 powi (expo x) \<le> x \<and> x < 2 powi (expo x + 1)"
  proof (cases "1 \<le> x")
    case True
    define n where "n = \<lfloor>x\<rfloor>"
    have n1: "1 \<le> n" using True by (simp add: n_def le_floor_iff)
    then have npos: "0 < n" by simp
    have b1: "1 \<le> bitlen n" using npos bitlen_eq_zero_iff[of n] bitlen_nonneg[of n] by linarith
    have bb: "2 ^ nat (bitlen n - 1) \<le> n" "n < 2 ^ nat (bitlen n)"
      using bitlen_bounds[OF npos] by auto
    have e: "expo x = bitlen n - 1" using True by (simp add: expo_def n_def)
    have "(2::rat) powi (bitlen n - 1) = 2 ^ nat (bitlen n - 1)"
      using b1 by (simp add: power_int_def)
    also have "\<dots> = of_int (2 ^ nat (bitlen n - 1))" by simp
    also have "\<dots> \<le> of_int n" using bb(1) by (simp only: of_int_le_iff)
    also have "\<dots> \<le> x" by (simp add: n_def)
    finally have lo: "2 powi (expo x) \<le> x" by (simp add: e)
    have "n + 1 \<le> 2 ^ nat (bitlen n)" using bb(2) by simp
    then have "(of_int (n + 1) :: rat) \<le> of_int (2 ^ nat (bitlen n))" by (simp only: of_int_le_iff)
    moreover have "x < of_int (n + 1)" unfolding n_def by linarith
    ultimately have "x < of_int (2 ^ nat (bitlen n))" by linarith
    moreover have "(2::rat) powi (bitlen n) = of_int (2 ^ nat (bitlen n))"
      using b1 by (simp add: power_int_def)
    ultimately have hi: "x < 2 powi (expo x + 1)" by (simp add: e)
    show ?thesis using lo hi by simp
  next
    case False
    then have x1: "x < 1" by simp
    define n where "n = \<lceil>1 / x\<rceil> - 1"
    have inv1: "1 < 1 / x" using assms x1 by (simp add: field_simps)
    have "1 < \<lceil>1 / x\<rceil>" using inv1 by (simp add: less_ceiling_iff)
    then have npos: "0 < n" by (simp add: n_def)
    have nlt: "of_int n < 1 / x" unfolding n_def by linarith
    have nge: "1 / x \<le> of_int (n + 1)" unfolding n_def by (simp add: le_of_int_ceiling)
    have b1: "1 \<le> bitlen n" using npos bitlen_eq_zero_iff[of n] bitlen_nonneg[of n] by linarith
    have bb: "2 ^ nat (bitlen n - 1) \<le> n" "n < 2 ^ nat (bitlen n)"
      using bitlen_bounds[OF npos] by auto
    have e: "expo x = - bitlen n" using False by (simp add: expo_def n_def)
    have "n + 1 \<le> 2 ^ nat (bitlen n)" using bb(2) by simp
    then have "(of_int (n + 1) :: rat) \<le> of_int (2 ^ nat (bitlen n))" by (simp only: of_int_le_iff)
    then have "1 / x \<le> 2 ^ nat (bitlen n)" using nge by simp
    then have "1 \<le> 2 ^ nat (bitlen n) * x" using assms by (simp only: pos_divide_le_eq)
    then have "1 \<le> x * 2 ^ nat (bitlen n)" by (simp only: mult.commute)
    then have "1 / 2 ^ nat (bitlen n) \<le> x" by (simp only: pos_divide_le_eq zero_less_power zero_less_numeral)
    moreover have "(2::rat) powi (- bitlen n) = 1 / 2 ^ nat (bitlen n)"
    proof -
      have "(2::rat) powi (- bitlen n) = 1 / 2 powi (bitlen n)" by (rule power_int_minus_divide)
      also have "\<dots> = 1 / 2 ^ nat (bitlen n)" using b1 by (simp add: power_int_def)
      finally show ?thesis .
    qed
    ultimately have lo: "2 powi (expo x) \<le> x" by (simp add: e)
    have "(of_int (2 ^ nat (bitlen n - 1)) :: rat) \<le> of_int n" using bb(1) by (simp only: of_int_le_iff)
    then have "(of_int (2 ^ nat (bitlen n - 1)) :: rat) < 1 / x" using nlt by linarith
    then have "2 ^ nat (bitlen n - 1) < 1 / x" by simp
    then have "2 ^ nat (bitlen n - 1) * x < 1" using assms by (simp only: pos_less_divide_eq)
    then have "x * 2 ^ nat (bitlen n - 1) < 1" by (simp only: mult.commute)
    then have "x < 1 / 2 ^ nat (bitlen n - 1)" by (simp only: pos_less_divide_eq zero_less_power zero_less_numeral)
    moreover have "(2::rat) powi (- bitlen n + 1) = 1 / 2 ^ nat (bitlen n - 1)"
    proof -
      have "- bitlen n + 1 = - (bitlen n - 1)" by simp
      then have "(2::rat) powi (- bitlen n + 1) = 2 powi (- (bitlen n - 1))" by simp
      also have "\<dots> = 1 / 2 powi (bitlen n - 1)" by (rule power_int_minus_divide)
      also have "\<dots> = 1 / 2 ^ nat (bitlen n - 1)" using b1 by (simp add: power_int_def)
      finally show ?thesis .
    qed
    ultimately have hi: "x < 2 powi (expo x + 1)" by (simp add: e)
    show ?thesis using lo hi by simp
  qed
  then show "2 powi (expo x) \<le> x" and "x < 2 powi (expo x + 1)" by auto
qed

lemma rne_cases:
  "(r - of_int \<lfloor>r\<rfloor> < 1 / 2 \<and> rne r = \<lfloor>r\<rfloor>)
   \<or> (1 / 2 < r - of_int \<lfloor>r\<rfloor> \<and> rne r = \<lfloor>r\<rfloor> + 1)
   \<or> (r - of_int \<lfloor>r\<rfloor> = 1 / 2 \<and> (rne r = \<lfloor>r\<rfloor> \<or> rne r = \<lfloor>r\<rfloor> + 1))"
proof -
  consider (lt) "r - of_int \<lfloor>r\<rfloor> < 1 / 2" | (gt) "1 / 2 < r - of_int \<lfloor>r\<rfloor>"
    | (eq) "r - of_int \<lfloor>r\<rfloor> = 1 / 2" by linarith
  then show ?thesis
  proof cases
    case lt
    then have "rne r = \<lfloor>r\<rfloor>" unfolding rne_def Let_def by (simp only: if_True)
    with lt show ?thesis by blast
  next
    case gt
    then have n: "\<not> r - of_int \<lfloor>r\<rfloor> < 1 / 2" by linarith
    have "rne r = \<lfloor>r\<rfloor> + 1" unfolding rne_def Let_def by (simp only: n gt if_True if_False)
    with gt show ?thesis by blast
  next
    case eq
    then have n: "\<not> r - of_int \<lfloor>r\<rfloor> < 1 / 2" "\<not> 1 / 2 < r - of_int \<lfloor>r\<rfloor>" by linarith+
    have "rne r = (if even \<lfloor>r\<rfloor> then \<lfloor>r\<rfloor> else \<lfloor>r\<rfloor> + 1)"
      unfolding rne_def Let_def by (simp only: n if_False)
    then have "rne r = \<lfloor>r\<rfloor> \<or> rne r = \<lfloor>r\<rfloor> + 1" by (cases "even \<lfloor>r\<rfloor>") simp_all
    with eq show ?thesis by blast
  qed
qed

lemma rne_error: "\<bar>of_int (rne r) - r\<bar> \<le> 1 / 2"
proof -
  have d: "of_int \<lfloor>r\<rfloor> \<le> r" "r < of_int \<lfloor>r\<rfloor> + 1" by linarith+
  from rne_cases[of r] show ?thesis
  proof (elim disjE conjE)
    assume "r - of_int \<lfloor>r\<rfloor> < 1 / 2" "rne r = \<lfloor>r\<rfloor>"
    then show ?thesis using d by simp
  next
    assume "1 / 2 < r - of_int \<lfloor>r\<rfloor>" "rne r = \<lfloor>r\<rfloor> + 1"
    then show ?thesis using d by simp
  next
    assume "r - of_int \<lfloor>r\<rfloor> = 1 / 2" "rne r = \<lfloor>r\<rfloor>"
    then show ?thesis by simp
  next
    assume "r - of_int \<lfloor>r\<rfloor> = 1 / 2" "rne r = \<lfloor>r\<rfloor> + 1"
    then show ?thesis by simp
  qed
qed

lemma rne_of_int: "rne (of_int n) = n"
  by (simp add: rne_def)

lemma fl_pos:
  "0 < x \<Longrightarrow> fl x = of_int (rne (x * 2 powi (52 - expo x))) * 2 powi (expo x - 52)"
  by (simp add: fl_def Let_def)

lemma scale_inverse: "(2::rat) powi (52 - e) * 2 powi (e - 52) = 1"
proof -
  have "(2::rat) powi (52 - e) * 2 powi (e - 52) = 2 powi ((52 - e) + (e - 52))"
    by (rule power_int_add[symmetric]) simp
  then show ?thesis by simp
qed

lemma fl_error:
  assumes "0 < x"
  shows "\<bar>fl x - x\<bar> \<le> x / 2 ^ 53"
proof -
  define e where "e = expo x"
  define s :: rat where "s = 2 powi (52 - e)"
  define t :: rat where "t = 2 powi (e - 52)"
  define m where "m = rne (x * s)"
  have st: "s * t = 1" unfolding s_def t_def by (rule scale_inverse)
  have tpos: "0 < t" unfolding t_def by simp
  have flx: "fl x = of_int m * t"
    unfolding m_def s_def t_def e_def using assms by (rule fl_pos)
  have "fl x - x = of_int m * t - x * (s * t)" by (simp add: flx st)
  also have "\<dots> = (of_int m - x * s) * t" by (simp add: algebra_simps)
  finally have "\<bar>fl x - x\<bar> = \<bar>of_int m - x * s\<bar> * t"
    using tpos by (simp add: abs_mult)
  moreover have "\<bar>of_int m - x * s\<bar> \<le> 1 / 2" unfolding m_def by (rule rne_error)
  ultimately have a: "\<bar>fl x - x\<bar> \<le> (1 / 2) * t"
    using tpos by (simp add: mult_right_mono)
  have "t = 2 powi e / 2 powi 52" unfolding t_def by (rule power_int_diff) simp
  then have t2: "(1 / 2) * t = 2 powi e / 2 ^ 53" by simp
  have "2 powi e \<le> x" unfolding e_def using assms by (rule expo_bounds)
  then have "2 powi e / 2 ^ 53 \<le> x / 2 ^ 53" by (simp add: divide_right_mono)
  with a t2 show ?thesis by linarith
qed

lemma fl_exact:
  assumes "0 < x" and "x * 2 powi (52 - expo x) = of_int n"
  shows "fl x = x"
proof -
  have "fl x = of_int n * 2 powi (expo x - 52)"
    using assms by (simp add: fl_pos rne_of_int)
  also have "\<dots> = x * (2 powi (52 - expo x) * 2 powi (expo x - 52))"
    using assms(2) by (simp add: mult.assoc)
  also have "\<dots> = x" by (simp only: scale_inverse mult_1_right)
  finally show ?thesis .
qed

lemma expo_less:
  assumes "0 < x" and "x < 2 powi k"
  shows "expo x < k"
proof -
  have "(2::rat) powi (expo x) \<le> x" using assms(1) by (rule expo_bounds)
  then have "(2::rat) powi (expo x) < 2 powi k" using assms(2) by linarith
  then show ?thesis
    by (metis less_le_not_le linorder_not_less one_le_numeral power_int_increasing)
qed

lemma fl_half_integer:
  assumes "0 < m" and "m < 2 ^ 53"
  shows "fl (of_int m / 2) = of_int m / 2"
proof -
  define x :: rat where "x = of_int m / 2"
  have xpos: "0 < x" using assms(1) by (simp add: x_def)
  have "(of_int m :: rat) < of_int (2 ^ 53)" using assms(2) by (simp only: of_int_less_iff)
  then have "x < 2 powi 52" by (simp add: x_def)
  then have e: "expo x < 52" using xpos by (rule expo_less[rotated])
  define j where "j = nat (51 - expo x)"
  have j: "52 - expo x = 1 + int j" using e by (simp add: j_def)
  have "(2::rat) powi (1 + int j) = 2 * 2 ^ j"
    by (simp add: power_int_add)
  then have "(2::rat) powi (52 - expo x) = 2 * 2 ^ j"
    by (simp only: j)
  then have "x * 2 powi (52 - expo x) = of_int (m * 2 ^ j)"
    by (simp add: x_def)
  with xpos have "fl x = x" by (rule fl_exact)
  then show ?thesis by (simp add: x_def)
qed

lemma Math_round_js_div:
  assumes d0: "0 \<le> d" and d52: "d < 2 ^ 52" and q0: "0 < q"
  shows "Math_round (js_div (of_int d) (of_int q)) = round_half_up d q"
proof (cases "d = 0")
  case True
  then show ?thesis by (simp add: Math_round_def js_div_def round_half_up_def fl_def)
next
  case False
  define x :: rat where "x = of_int d / of_int q"
  define k where "k = \<lfloor>x + 1 / 2\<rfloor>"
  have dpos: "0 < d" using False d0 by simp
  have qr: "(0::rat) < of_int q" using q0 by simp
  have xpos: "0 < x" using dpos q0 by (simp add: x_def)
  have "(of_int d :: rat) < of_int (2 ^ 52)" using d52 by (simp only: of_int_less_iff)
  then have dr: "(of_int d :: rat) < 2 ^ 52" by simp
  have "x / 2 ^ 53 = of_int d / 2 ^ 53 / of_int q" by (simp add: x_def)
  also have "\<dots> < (1 / 2) / of_int q"
  proof (rule divide_strict_right_mono)
    show "(of_int d :: rat) / 2 ^ 53 < 1 / 2" using dr by simp
    show "(0::rat) < of_int q" by (rule qr)
  qed
  finally have small: "x / 2 ^ 53 < 1 / (2 * of_int q)" by simp
  have err: "\<bar>fl x - x\<bar> < 1 / (2 * of_int q)"
    using fl_error[OF xpos] small by linarith
  have kle: "of_int k \<le> x + 1 / 2" and klt: "x + 1 / 2 < of_int k + 1"
    unfolding k_def by linarith+
  \<comment> \<open>the distance of \<open>x\<close> to the half-integers around it is a multiple of \<open>1 / (2 q)\<close>\<close>
  have up_eq: "of_int k + 1 / 2 - x = of_int ((2 * k + 1) * q - 2 * d) / (2 * of_int q)"
    using qr by (simp add: x_def field_simps)
  have lo_eq: "x - (of_int k - 1 / 2) = of_int (2 * d - (2 * k - 1) * q) / (2 * of_int q)"
    using qr by (simp add: x_def field_simps)
  have "0 < of_int k + 1 / 2 - x" using klt by linarith
  then have "(0::rat) < of_int ((2 * k + 1) * q - 2 * d)"
    using qr unfolding up_eq by (simp add: zero_less_divide_iff)
  then have "0 < (2 * k + 1) * q - 2 * d" by (simp only: of_int_0_less_iff)
  then have "1 \<le> (2 * k + 1) * q - 2 * d" by linarith
  then have "(1::rat) \<le> of_int ((2 * k + 1) * q - 2 * d)" by (simp only: of_int_1_le_iff)
  then have "(1::rat) / (2 * of_int q) \<le> of_int ((2 * k + 1) * q - 2 * d) / (2 * of_int q)"
    using qr by (simp only: divide_right_mono zero_le_mult_iff zero_le_numeral less_imp_le simp_thms)
  then have up_gap: "1 / (2 * of_int q) \<le> of_int k + 1 / 2 - x" by (simp only: up_eq)
  have upper: "fl x + 1 / 2 < of_int k + 1" using err up_gap by linarith
  have lower: "of_int k \<le> fl x + 1 / 2"
  proof (cases "2 * d = (2 * k - 1) * q")
    case True
    then have "x - (of_int k - 1 / 2) = 0" by (simp only: lo_eq) simp
    then have xk: "x = of_int (2 * k - 1) / 2" by simp
    have "(0::rat) < of_int (2 * k - 1)" using xpos xk by (simp add: zero_less_divide_iff)
    then have "0 < 2 * k - 1" by (simp only: of_int_0_less_iff)
    moreover have "2 * k - 1 < 2 ^ 53"
    proof -
      have "x \<le> of_int d" using qr dpos q0 by (simp add: x_def field_simps mult_le_cancel_left1) 
      then have "of_int (2 * k - 1) / 2 < (2::rat) ^ 52" using dr xk by linarith
      then have "(of_int (2 * k - 1) :: rat) < of_int (2 ^ 53)" by simp
      then show ?thesis by (simp only: of_int_less_iff)
    qed
    ultimately have "fl x = x" unfolding xk by (rule fl_half_integer)
    then show ?thesis using kle by simp
  next
    case False
    have "0 \<le> x - (of_int k - 1 / 2)" using kle by linarith
    then have "(0::rat) \<le> of_int (2 * d - (2 * k - 1) * q)"
      using qr unfolding lo_eq by (simp add: zero_le_divide_iff)
    then have "0 \<le> 2 * d - (2 * k - 1) * q" by (simp only: of_int_0_le_iff)
    with False have "1 \<le> 2 * d - (2 * k - 1) * q" by linarith
    then have "(1::rat) \<le> of_int (2 * d - (2 * k - 1) * q)" by (simp only: of_int_1_le_iff)
    then have "(1::rat) / (2 * of_int q) \<le> of_int (2 * d - (2 * k - 1) * q) / (2 * of_int q)"
      using qr by (simp only: divide_right_mono zero_le_mult_iff zero_le_numeral less_imp_le simp_thms)
    then have "1 / (2 * of_int q) \<le> x - (of_int k - 1 / 2)" by (simp only: lo_eq)
    then show ?thesis using err by linarith
  qed
  have "\<lfloor>fl x + 1 / 2\<rfloor> = k" using lower upper by (simp add: floor_unique)
  then show ?thesis
    by (simp add: Math_round_def js_div_def round_half_up_def x_def k_def)
qed

lemma floor_half: "\<lfloor>(1::rat) / 2\<rfloor> = 0"
  by (rule floor_unique) simp_all

lemma Math_round_0: "Math_round 0 = 0"
  by (simp add: Math_round_def floor_half)

lemma round_half_up_0: "round_half_up 0 b = 0"
  by (simp add: round_half_up_def floor_half)

lemma round_half_up_div:
  assumes "0 < b"
  shows "round_half_up a b = (2 * a + b) div (2 * b)"
proof -
  have b: "(of_int b :: rat) \<noteq> 0" using assms by simp
  have "(of_int a :: rat) / of_int b + 1 / 2 = of_int (2 * a + b) / of_int (2 * b)"
    using b by (simp add: field_simps)
  then show ?thesis
    unfolding round_half_up_def by (simp only: floor_divide_of_int_eq)
qed

lemma round_half_up_range:
  assumes "0 \<le> a" and "0 < b" and "a \<le> 100 * b"
  shows "0 \<le> round_half_up a b" and "round_half_up a b \<le> 100"
proof -
  define x :: rat where "x = of_int a / of_int b"
  have br: "(0::rat) < of_int b" using assms(2) by simp
  have "(0::rat) \<le> of_int a" using assms(1) by simp
  then have x0: "0 \<le> x" using br by (simp add: x_def)
  have "(of_int a :: rat) \<le> of_int (100 * b)" using assms(3) by (simp only: of_int_le_iff)
  then have "(of_int a :: rat) \<le> 100 * of_int b" by simp
  then have x100: "x \<le> 100" using br by (simp add: x_def pos_divide_le_eq)
  have "(0::rat) \<le> x + 1 / 2" using x0 by simp
  then have "0 \<le> \<lfloor>x + 1 / 2\<rfloor>" by (simp only: zero_le_floor)
  then show "0 \<le> round_half_up a b" by (simp add: round_half_up_def x_def)
  have "x + 1 / 2 < of_int 101" using x100 by simp
  then have "\<lfloor>x + 1 / 2\<rfloor> < 101" by (simp only: floor_less_iff)
  then show "round_half_up a b \<le> 100" by (simp add: round_half_up_def x_def)
qed

lemma Math_round_near:
  assumes b0: "0 < b"
    and near: "\<bar>z - of_int a / of_int b\<bar> < 1 / (2 * of_int b)"
  shows "Math_round z = round_half_up a b
       \<or> (2 * a = (2 * round_half_up a b - 1) * b \<and> Math_round z = round_half_up a b - 1)"
proof -
  define x :: rat where "x = of_int a / of_int b"
  define k where "k = \<lfloor>x + 1 / 2\<rfloor>"
  have kdef: "round_half_up a b = k" by (simp add: round_half_up_def k_def x_def)
  have qr: "(0::rat) < of_int b" using b0 by simp
  have err: "\<bar>z - x\<bar> < 1 / (2 * of_int b)" using near by (simp add: x_def)
  have kle: "of_int k \<le> x + 1 / 2" and klt: "x + 1 / 2 < of_int k + 1"
    unfolding k_def by linarith+
  have up_eq: "of_int k + 1 / 2 - x = of_int ((2 * k + 1) * b - 2 * a) / (2 * of_int b)"
    using qr by (simp add: x_def field_simps)
  have lo_eq: "x - (of_int k - 1 / 2) = of_int (2 * a - (2 * k - 1) * b) / (2 * of_int b)"
    using qr by (simp add: x_def field_simps)
  have "0 < of_int k + 1 / 2 - x" using klt by linarith
  then have "(0::rat) < of_int ((2 * k + 1) * b - 2 * a)"
    using qr unfolding up_eq by (simp add: zero_less_divide_iff)
  then have "0 < (2 * k + 1) * b - 2 * a" by (simp only: of_int_0_less_iff)
  then have "1 \<le> (2 * k + 1) * b - 2 * a" by linarith
  then have "(1::rat) \<le> of_int ((2 * k + 1) * b - 2 * a)" by (simp only: of_int_1_le_iff)
  then have "(1::rat) / (2 * of_int b) \<le> of_int ((2 * k + 1) * b - 2 * a) / (2 * of_int b)"
    using qr by (simp only: divide_right_mono zero_le_mult_iff zero_le_numeral less_imp_le simp_thms)
  then have up_gap: "1 / (2 * of_int b) \<le> of_int k + 1 / 2 - x" by (simp only: up_eq)
  have upper: "z + 1 / 2 < of_int k + 1" using err up_gap by linarith
  show ?thesis
  proof (cases "2 * a = (2 * k - 1) * b")
    case True
    then have "x - (of_int k - 1 / 2) = 0" by (simp only: lo_eq) simp
    then have xk: "x = of_int k - 1 / 2" by simp
    have "1 / (2 * of_int b) \<le> (1::rat) / 2"
      using b0 by (simp add: field_simps)
    then have "of_int (k - 1) \<le> z + 1 / 2" using err xk by simp
    then have "k - 1 \<le> \<lfloor>z + 1 / 2\<rfloor>" by (simp only: le_floor_iff)
    moreover have "z + 1 / 2 < of_int (k + 1)" using upper by simp
    then have "\<lfloor>z + 1 / 2\<rfloor> < k + 1" by (simp only: floor_less_iff)
    ultimately have "\<lfloor>z + 1 / 2\<rfloor> = k - 1 \<or> \<lfloor>z + 1 / 2\<rfloor> = k"
      by linarith
    then show ?thesis using True kdef by (auto simp: Math_round_def)
  next
    case False
    have "0 \<le> x - (of_int k - 1 / 2)" using kle by linarith
    then have "(0::rat) \<le> of_int (2 * a - (2 * k - 1) * b)"
      using qr unfolding lo_eq by (simp add: zero_le_divide_iff)
    then have "0 \<le> 2 * a - (2 * k - 1) * b" by (simp only: of_int_0_le_iff)
    with False have "1 \<le> 2 * a - (2 * k - 1) * b" by linarith
    then have "(1::rat) \<le> of_int (2 * a - (2 * k - 1) * b)" by (simp only: of_int_1_le_iff)
    then have "(1::rat) / (2 * of_int b) \<le> of_int (2 * a - (2 * k - 1) * b) / (2 * of_int b)"
      using qr by (simp only: divide_right_mono zero_le_mult_iff zero_le_numeral less_imp_le simp_thms)
    then have "1 / (2 * of_int b) \<le> x - (of_int k - 1 / 2)" by (simp only: lo_eq)
    then have "of_int k \<le> z + 1 / 2" using err by linarith
    then have "\<lfloor>z + 1 / 2\<rfloor> = k" using upper by (simp add: floor_unique)
    then show ?thesis using kdef by (simp add: Math_round_def)
  qed
qed


section \<open>The rounded quotients of the source\<close>

text \<open>
  Elapsed minutes and seconds: one division, then \<open>Math.round\<close>. The quotient is rounded
  to binary64 first, which never moves it across a half-integer.
\<close>

lemma minutes_rounded:
  assumes "0 \<le> e" and "e < 2 ^ 52"
  shows "Math_round (js_div (of_int e) 60000) = (e + 30000) div 60000"
proof -
  have "Math_round (js_div (of_int e) (of_int 60000)) = round_half_up e 60000"
    using assms by (intro Math_round_js_div) simp_all
  also have "\<dots> = (2 * e + 60000) div (2 * 60000)" by (rule round_half_up_div) simp
  also have "\<dots> = (e + 30000) div 60000"
  proof -
    have "2 * e + 60000 = 2 * (e + 30000)" by simp
    then have "(2 * e + 60000) div (2 * 60000) = (2 * (e + 30000)) div (2 * 60000)" by simp
    also have "\<dots> = (e + 30000) div 60000" by (rule div_mult_mult1) simp
    finally show ?thesis .
  qed
  finally show ?thesis by simp
qed

lemma seconds_rounded:
  assumes "0 \<le> e" and "e < 2 ^ 52"
  shows "Math_round (js_div (of_int e) 1000) = (e + 500) div 1000"
proof -
  have "Math_round (js_div (of_int e) (of_int 1000)) = round_half_up e 1000"
    using assms by (intro Math_round_js_div) simp_all
  also have "\<dots> = (2 * e + 1000) div (2 * 1000)" by (rule round_half_up_div) simp
  also have "\<dots> = (e + 500) div 1000"
  proof -
    have "2 * e + 1000 = 2 * (e + 500)" by simp
    then have "(2 * e + 1000) div (2 * 1000) = (2 * (e + 500)) div (2 * 1000)" by simp
    also have "\<dots> = (e + 500) div 1000" by (rule div_mult_mult1) simp
    finally show ?thesis .
  qed
  finally show ?thesis by simp
qed

text \<open>
  Percentages: a division, a multiplication by 100, then \<open>Math.round\<close>. The two
  roundings together stay well below the distance between an exact percentage and the
  nearest half-integer, unless the exact percentage is itself a half-integer: then the
  result is one of the two integers next to it.
\<close>

lemma percentage_nearest:
  fixes c t :: nat
  assumes t0: "0 < t" and ct: "c \<le> t" and t32: "t \<le> 2 ^ 32"
  shows "Math_round (js_mul (js_div (of_nat c) (of_nat t)) 100)
           = round_half_up (100 * int c) (int t)
       \<or> (2 * (100 * int c) = (2 * round_half_up (100 * int c) (int t) - 1) * int t
          \<and> Math_round (js_mul (js_div (of_nat c) (of_nat t)) 100)
               = round_half_up (100 * int c) (int t) - 1)"
proof (cases "c = 0")
  case True
  then show ?thesis
    by (simp add: js_mul_def js_div_def fl_def Math_round_0 round_half_up_0)
next
  case False
  define x :: rat where "x = of_nat c / of_nat t"
  define y where "y = fl x"
  define w where "w = y * 100"
  define z where "z = fl w"
  have tr: "(0::rat) < of_nat t" using t0 by simp
  have xpos: "0 < x" using False t0 by (simp add: x_def)
  have "(of_nat c :: rat) \<le> of_nat t" using ct by (simp only: of_nat_le_iff)
  then have x1: "x \<le> 1" using tr by (simp add: x_def)
  have "\<bar>y - x\<bar> \<le> x / 2 ^ 53" unfolding y_def using xpos by (rule fl_error)
  then have ey: "\<bar>y - x\<bar> \<le> x / 9007199254740992" by simp
  then have ypos: "0 < y" using xpos by linarith
  then have wpos: "0 < w" by (simp add: w_def)
  have "\<bar>z - w\<bar> \<le> w / 2 ^ 53" unfolding z_def using wpos by (rule fl_error)
  then have ez: "\<bar>z - w\<bar> \<le> w / 9007199254740992" by simp
  have "(of_nat t :: rat) \<le> of_nat (2 ^ 32)" using t32 by (simp only: of_nat_le_iff)
  then have tb: "(of_nat t :: rat) \<le> 2 ^ 32" by simp
  have gap: "(1::rat) / 8589934592 \<le> 1 / (2 * of_nat t)"
  proof -
    have "2 * (of_nat t :: rat) \<le> 8589934592" using tb by simp
    then show ?thesis using tr by (intro divide_left_mono) simp_all
  qed
  have "\<bar>z - 100 * x\<bar> < 1 / 8589934592"
    using ey ez x1 xpos unfolding w_def by linarith
  then have "\<bar>z - 100 * x\<bar> < 1 / (2 * of_nat t)" using gap by linarith
  moreover have "100 * x = of_int (100 * int c) / of_int (int t)" by (simp add: x_def)
  ultimately have near: "\<bar>z - of_int (100 * int c) / of_int (int t)\<bar> < 1 / (2 * of_int (int t))"
    by simp
  have "0 < int t" using t0 by simp
  from Math_round_near[OF this near] show ?thesis
    by (simp add: z_def w_def y_def x_def js_mul_def js_div_def)
qed

lemma percentage_range:
  fixes c t :: nat
  assumes "0 < t" and "c \<le> t" and "t \<le> 2 ^ 32"
  shows "0 \<le> Math_round (js_mul (js_div (of_nat c) (of_nat t)) 100)
       \<and> Math_round (js_mul (js_div (of_nat c) (of_nat t)) 100) \<le> 100"
proof -
  define k where "k = round_half_up (100 * int c) (int t)"
  define r where "r = Math_round (js_mul (js_div (of_nat c) (of_nat t)) 100)"
  have k: "0 \<le> k" "k \<le> 100"
    unfolding k_def using assms by (simp_all add: round_half_up_range)
  from percentage_nearest[OF assms]
  have "r = k \<or> (2 * (100 * int c) = (2 * k - 1) * int t \<and> r = k - 1)"
    unfolding k_def r_def .
  then show ?thesis unfolding r_def[symmetric]
  proof
    assume "r = k" then show "0 \<le> r \<and> r \<le> 100" using k by simp
  next
    assume t: "2 * (100 * int c) = (2 * k - 1) * int t \<and> r = k - 1"
    have "1 \<le> k"
    proof (rule ccontr)
      assume "\<not> 1 \<le> k"
      then have "2 * k - 1 < 0" by simp
      then have "(2 * k - 1) * int t < 0" using assms(1) by (simp add: mult_neg_pos)
      with t show False by simp
    qed
    with t k show "0 \<le> r \<and> r \<le> 100" by simp
  qed
qed

lemma percentage_no_tie:
  fixes c t :: nat
  assumes "0 < t" and "c \<le> t" and "t \<le> 2 ^ 32"
    and "(200 * int c + int t) mod (2 * int t) \<noteq> 0"
  shows "Math_round (js_mul (js_div (of_nat c) (of_nat t)) 100)
           = round_half_up (100 * int c) (int t)"
proof -
  define k where "k = round_half_up (100 * int c) (int t)"
  have "2 * (100 * int c) \<noteq> (2 * k - 1) * int t"
  proof
    assume "2 * (100 * int c) = (2 * k - 1) * int t"
    then have "200 * int c + int t = k * (2 * int t)" by (simp add: algebra_simps)
    then have "(200 * int c + int t) mod (2 * int t) = 0" by simp
    with assms(4) show False by simp
  qed
  with percentage_nearest[OF assms(1-3)] show ?thesis unfolding k_def by blast
qed


section \<open>Effects of the handlers\<close>





lemma upserts_append: "upserts (xs @ ys) = upserts xs @ upserts ys"
  by (induction xs rule: upserts.induct) simp_all

lemma attempts_append: "attempts (xs @ ys) = attempts xs @ attempts ys"
  by (induction xs rule: attempts.induct) simp_all

lemma upserts_updateProgress:
  "upserts (updateProgress env st s p now) =
     (case user env of
        None \<Rightarrow> []
      | Some uid \<Rightarrow>
          [\<lparr> progressData.user_id = uid,
             progressData.lesson_id = Lesson.ident (lesson env),
             progressData.course_id = Course.ident (course env),
             progressData.status = s,
             progressData.completion_percentage = p,
             progressData.time_spent_minutes =
               Math_round (js_div (of_int (now - startTime st)) 60000),
             progressData.last_accessed_at = now,
             progressData.completed_at = (if s = completed then Some now else None) \<rparr>])"
  by (simp add: updateProgress_def Let_def split: option.splits)

lemma attempts_updateProgress: "attempts (updateProgress env st s p now) = []"
  by (simp add: updateProgress_def Let_def split: option.splits)

lemma updateProgress_fields:
  assumes "d \<in> set (upserts (updateProgress env st s p now))"
  shows "progressData.status d = s" and "progressData.completion_percentage d = p"
    and "progressData.time_spent_minutes d = Math_round (js_div (of_int (now - startTime st)) 60000)"
    and "progressData.completed_at d = (if s = completed then Some now else None)"
  using assms by (auto simp: upserts_updateProgress split: option.splits)

lemma handleAnswerSubmit_upserts:
  assumes "handleAnswerSubmit env t1 t2 st = Inr (st', fx)"
  shows "upserts fx = [] \<or>
         upserts fx = upserts (updateProgress env st in_progress
             (Math_round (js_mul (js_div (of_nat (currentQuestion st + 1))
                                         (of_nat (length (assessments st)))) 100)) t2)"
  using assms
  by (auto simp: handleAnswerSubmit_def Let_def split: option.splits if_splits)

lemma foldl_minutes:
  "foldl (\<lambda>sum p. sum + UserProgress.time_spent_minutes p) a rs
     = a + sum_list (map UserProgress.time_spent_minutes rs)"
  by (induction rs arbitrary: a) simp_all

lemma step_startTime:
  "step env ev st = Inr (st', fx) \<Longrightarrow> startTime st' = startTime st"
  by (cases ev)
     (auto simp: setAssessments_def selectOption_def handleAnswerSubmit_def Let_def
                 handleNextQuestion_def handleCompleteLesson_def
           split: option.splits if_splits)

lemma run_startTime:
  "run env evs (st, fx) = Inr (st', fx') \<Longrightarrow> startTime st' = startTime st"
proof (induction evs arbitrary: st fx)
  case Nil
  then show ?case by simp
next
  case (Cons ev evs)
  then show ?case
    by (auto split: sum.splits dest: step_startTime)
qed

lemma step_upserts:
  assumes "step env ev st = Inr (st', fx)" and "d \<in> set (upserts fx)"
  shows "progressData.time_spent_minutes d
           = Math_round (js_div (of_int (progress_clock ev - startTime st)) 60000)"
proof (cases ev)
  case (LessonOpened now)
  with assms have "d \<in> set (upserts (updateProgress env st in_progress 0 now))"
    by (auto simp: openSession_def upserts_append split: if_splits)
  then show ?thesis unfolding LessonOpened progress_clock.simps
    by (rule updateProgress_fields)
next
  case (AssessmentsLoaded data)
  with assms show ?thesis by auto
next
  case (SelectOption opt)
  with assms show ?thesis by auto
next
  case (SubmitAnswer t1 t2)
  with assms have h: "handleAnswerSubmit env t1 t2 st = Inr (st', fx)" by simp
  from handleAnswerSubmit_upserts[OF h] assms(2)
  have "d \<in> set (upserts (updateProgress env st in_progress
             (Math_round (js_mul (js_div (of_nat (currentQuestion st + 1))
                                         (of_nat (length (assessments st)))) 100)) t2))"
    by auto
  then show ?thesis unfolding SubmitAnswer progress_clock.simps
    by (rule updateProgress_fields)
next
  case (NextQuestion now)
  with assms have "d \<in> set (upserts (updateProgress env st completed 100 now))"
    by (auto simp: handleNextQuestion_def split: if_splits)
  then show ?thesis unfolding NextQuestion progress_clock.simps
    by (rule updateProgress_fields)
next
  case (CompleteLesson now)
  with assms have "d \<in> set (upserts (updateProgress env st completed 100 now))"
    by (auto simp: handleCompleteLesson_def upserts_append)
  then show ?thesis unfolding CompleteLesson progress_clock.simps
    by (rule updateProgress_fields)
qed

lemma step_upsert_completed_at:
  assumes "step env ev st = Inr (st', fx)" and "d \<in> set (upserts fx)"
  shows "progressData.completed_at d
           = (if progressData.status d = completed then Some (progress_clock ev) else None)"
proof -
  have *: "progressData.completed_at d
           = (if progressData.status d = completed then Some now else None)"
    if "d \<in> set (upserts (updateProgress env st s p now))" for s p now
    using that by (auto simp: upserts_updateProgress split: option.splits)
  show ?thesis
  proof (cases ev)
    case (LessonOpened now)
    with assms have "d \<in> set (upserts (updateProgress env st in_progress 0 now))"
      by (auto simp: openSession_def upserts_append split: if_splits)
    then show ?thesis unfolding LessonOpened progress_clock.simps by (rule *)
  next
    case (AssessmentsLoaded data)
    with assms show ?thesis by auto
  next
    case (SelectOption opt)
    with assms show ?thesis by auto
  next
    case (SubmitAnswer t1 t2)
    with assms have h: "handleAnswerSubmit env t1 t2 st = Inr (st', fx)" by simp
    from handleAnswerSubmit_upserts[OF h] assms(2)
    have "d \<in> set (upserts (updateProgress env st in_progress
               (Math_round (js_mul (js_div (of_nat (currentQuestion st + 1))
                                           (of_nat (length (assessments st)))) 100)) t2))"
      by auto
    then show ?thesis unfolding SubmitAnswer progress_clock.simps by (rule *)
  next
    case (NextQuestion now)
    with assms have "d \<in> set (upserts (updateProgress env st completed 100 now))"
      by (auto simp: handleNextQuestion_def split: if_splits)
    then show ?thesis unfolding NextQuestion progress_clock.simps by (rule *)
  next
    case (CompleteLesson now)
    with assms have "d \<in> set (upserts (updateProgress env st completed 100 now))"
      by (auto simp: handleCompleteLesson_def upserts_append)
    then show ?thesis unfolding CompleteLesson progress_clock.simps by (rule *)
  qed
qed

lemma step_attempts:
  assumes "step env ev st = Inr (st', fx)" and "a \<in> set (attempts fx)"
  shows "UserAssessment.time_taken_seconds a
           = Math_round (js_div (of_int (attempt_clock ev - startTime st)) 1000)"
  using assms
  by (cases ev)
     (auto simp: openSession_def attempts_append attempts_updateProgress handleNextQuestion_def
                 handleCompleteLesson_def handleAnswerSubmit_def Let_def
           simp del: of_int_diff
           split: if_splits option.splits)

lemma handleAnswerSubmit_effects:
  assumes "AnsweringQuestion i st" and "selectedAnswer st \<noteq> []" and "user env = Some uid"
  shows "handleAnswerSubmit env t1 t2 st =
      Inr (st\<lparr> isCorrect := Some (selectedAnswer st = Assessment.correct_answer (assessments st ! i)),
               showExplanation := True,
               score := score st
                 + (if selectedAnswer st = Assessment.correct_answer (assessments st ! i)
                    then 1 else 0) \<rparr>,
           [InsertAttempt
              \<lparr> UserAssessment.user_id = uid,
                assessment_id = Assessment.ident (assessments st ! i),
                user_answer = selectedAnswer st,
                is_correct = (selectedAnswer st = Assessment.correct_answer (assessments st ! i)),
                time_taken_seconds = Math_round (js_div (of_int (t1 - startTime st)) 1000) \<rparr>,
            UpsertProgress
              \<lparr> progressData.user_id = uid,
                progressData.lesson_id = Lesson.ident (lesson env),
                progressData.course_id = Course.ident (course env),
                progressData.status = in_progress,
                progressData.completion_percentage =
                  Math_round (js_mul (js_div (of_nat (i + 1))
                                             (of_nat (length (assessments st)))) 100),
                progressData.time_spent_minutes =
                  Math_round (js_div (of_int (t2 - startTime st)) 60000),
                progressData.last_accessed_at = t2,
                progressData.completed_at = None \<rparr>])"
  using assms
  by (simp add: AnsweringQuestion_def handleAnswerSubmit_def updateProgress_def Let_def
           del: of_int_diff of_nat_add of_nat_Suc)


section \<open>Claims\<close>

subsection \<open>C1: completion percentage and status of a write\<close>




subsection \<open>C2: three course percentages\<close>

text \<open>
  C2 states that the progress dashboard, the course card and the course detail view
  compute the same percentage. With one completed record and two lessons in the course,
  the dashboard and the card show 100 and the detail view shows 50: the detail view
  divides by the number of lessons, the other two by the number of progress records.
\<close>

theorem course_views_counterexample:
  "getCourseProgress [progress_row ''l1'' ''c1'' completed 5 0 (Some 0)] ''c1'' = 100
   \<and> Dashboard_card [progress_row ''l1'' ''c1'' completed 5 0 (Some 0)] \<lparr> Course.ident = ''c1'' \<rparr> = 100
   \<and> CourseDetail_progressPercentage
        [\<lparr> Lesson.ident = ''l1'', Lesson.course_id = ''c1'', content_type = text_content \<rparr>,
         \<lparr> Lesson.ident = ''l2'', Lesson.course_id = ''c1'', content_type = quiz \<rparr>]
        [progress_row ''l1'' ''c1'' completed 5 0 (Some 0)] = 50"
  by code_simp

text \<open>
  C2, amended. The course card, fed by \<open>Dashboard\<close> with the records of its course,
  computes the same percentage as the progress dashboard's \<open>getCourseProgress\<close>:
  completed records over progress records of the course. The course detail view
  divides the completed records of the course by the number of its lessons instead, and
  agrees with the other two when the course has as many lessons as progress records.
\<close>

theorem course_percentage_views:
  "Dashboard_card rs c = getCourseProgress rs (Course.ident c)
   \<and> (length lessons = length (filter (\<lambda>p. UserProgress.course_id p = cid) rs) \<longrightarrow>
        CourseDetail_progressPercentage lessons
            (filter (\<lambda>p. UserProgress.course_id p = cid) rs)
          = getCourseProgress rs cid)"
  by (simp add: Dashboard_card_def CourseCard_progressPercentage_def getCourseProgress_def
        CourseDetail_progressPercentage_def Let_def)

theorem course_percentage_views_witness:
  "length [\<lparr> Lesson.ident = ''l1'', Lesson.course_id = ''c1'', content_type = text_content \<rparr>,
           \<lparr> Lesson.ident = ''l2'', Lesson.course_id = ''c1'', content_type = quiz \<rparr>]
     = length (filter (\<lambda>p. UserProgress.course_id p = ''c1'')
         [progress_row ''l1'' ''c1'' completed 5 0 (Some 0),
          progress_row ''l9'' ''c2'' completed 5 0 (Some 0),
          progress_row ''l2'' ''c1'' in_progress 5 0 None])
   \<and> CourseDetail_progressPercentage
        [\<lparr> Lesson.ident = ''l1'', Lesson.course_id = ''c1'', content_type = text_content \<rparr>,
         \<lparr> Lesson.ident = ''l2'', Lesson.course_id = ''c1'', content_type = quiz \<rparr>]
        (filter (\<lambda>p. UserProgress.course_id p = ''c1'')
         [progress_row ''l1'' ''c1'' completed 5 0 (Some 0),
          progress_row ''l9'' ''c2'' completed 5 0 (Some 0),
          progress_row ''l2'' ''c1'' in_progress 5 0 None])
      = getCourseProgress
         [progress_row ''l1'' ''c1'' completed 5 0 (Some 0),
          progress_row ''l9'' ''c2'' completed 5 0 (Some 0),
          progress_row ''l2'' ''c1'' in_progress 5 0 None] ''c1''"
proof -
  have h: "length [\<lparr> Lesson.ident = ''l1'', Lesson.course_id = ''c1'', content_type = text_content \<rparr>,
           \<lparr> Lesson.ident = ''l2'', Lesson.course_id = ''c1'', content_type = quiz \<rparr>]
     = length (filter (\<lambda>p. UserProgress.course_id p = ''c1'')
         [progress_row ''l1'' ''c1'' completed 5 0 (Some 0),
          progress_row ''l9'' ''c2'' completed 5 0 (Some 0),
          progress_row ''l2'' ''c1'' in_progress 5 0 None])"
    by (simp add: progress_row_def)
  from course_percentage_views
         [of "[progress_row ''l1'' ''c1'' completed 5 0 (Some 0),
               progress_row ''l9'' ''c2'' completed 5 0 (Some 0),
               progress_row ''l2'' ''c1'' in_progress 5 0 None]"
             "\<lparr> Course.ident = ''c1'' \<rparr>"
             "[\<lparr> Lesson.ident = ''l1'', Lesson.course_id = ''c1'', content_type = text_content \<rparr>,
               \<lparr> Lesson.ident = ''l2'', Lesson.course_id = ''c1'', content_type = quiz \<rparr>]"
             "''c1''"] h
  show ?thesis by blast
qed

subsection \<open>C3: time accounting\<close>

text \<open>
  C3 states that \<open>timeSpentMinutes\<close> is the elapsed time in minutes truncated to the
  integer below. Half a minute after the session opened, the write carries 1 minute:
  the source rounds with \<open>Math.round\<close>.
\<close>

theorem half_minute_counterexample:
  "upserts (updateProgress sample_env (mount 0) in_progress 0 30000)
     = [\<lparr> progressData.user_id = ''u1'', progressData.lesson_id = ''l1'',
           progressData.course_id = ''c1'', progressData.status = in_progress,
           progressData.completion_percentage = 0,
           progressData.time_spent_minutes = 1,
           progressData.last_accessed_at = 30000,
           progressData.completed_at = None \<rparr>]
   \<and> spec_timeSpentMinutes (startTime (mount 0)) 30000 = 0"
  by code_simp

text \<open>
  C3, amended. For an elapsed time between 0 and \<open>2^52\<close> ms since the session opened,
  the \<open>time_spent_minutes\<close> of a progress write is the elapsed minutes rounded to the
  nearest integer, a half going up, and the \<open>time_taken_seconds\<close> of an attempt record is
  the elapsed seconds rounded to the nearest integer, a half going up. Both are measured
  from the session's \<open>startTime\<close>, which no event changes, neither in one step nor over
  a run of any length.
\<close>

theorem time_accounting:
  assumes "step env ev st = Inr (st', fx)"
  shows "startTime st' = startTime st
       \<and> (\<forall>d \<in> set (upserts fx).
             0 \<le> progress_clock ev - startTime st \<and> progress_clock ev - startTime st < 2 ^ 52
             \<longrightarrow> progressData.time_spent_minutes d
                   = (progress_clock ev - startTime st + 30000) div 60000)
       \<and> (\<forall>a \<in> set (attempts fx).
             0 \<le> attempt_clock ev - startTime st \<and> attempt_clock ev - startTime st < 2 ^ 52
             \<longrightarrow> UserAssessment.time_taken_seconds a
                   = (attempt_clock ev - startTime st + 500) div 1000)
       \<and> (\<forall>evs fx0 st'' fx''. run env evs (st, fx0) = Inr (st'', fx'')
             \<longrightarrow> startTime st'' = startTime st)"
proof (intro conjI ballI impI allI)
  show "startTime st' = startTime st" using assms by (rule step_startTime)
next
  fix d
  assume d: "d \<in> set (upserts fx)"
    and e: "0 \<le> progress_clock ev - startTime st \<and> progress_clock ev - startTime st < 2 ^ 52"
  have "progressData.time_spent_minutes d
      = Math_round (js_div (of_int (progress_clock ev - startTime st)) 60000)"
    using assms d by (rule step_upserts)
  also have "\<dots> = (progress_clock ev - startTime st + 30000) div 60000"
    by (rule minutes_rounded) (use e in blast)+
  finally show "progressData.time_spent_minutes d
      = (progress_clock ev - startTime st + 30000) div 60000" .
next
  fix a
  assume a: "a \<in> set (attempts fx)"
    and e: "0 \<le> attempt_clock ev - startTime st \<and> attempt_clock ev - startTime st < 2 ^ 52"
  have "UserAssessment.time_taken_seconds a
      = Math_round (js_div (of_int (attempt_clock ev - startTime st)) 1000)"
    using assms a by (rule step_attempts)
  also have "\<dots> = (attempt_clock ev - startTime st + 500) div 1000"
    by (rule seconds_rounded) (use e in blast)+
  finally show "UserAssessment.time_taken_seconds a
      = (attempt_clock ev - startTime st + 500) div 1000" .
next
  fix evs fx0 st'' fx''
  assume "run env evs (st, fx0) = Inr (st'', fx'')"
  then show "startTime st'' = startTime st" by (rule run_startTime)
qed

theorem time_accounting_witness:
  "step sample_env (SubmitAnswer 1499 90000)
     ((setAssessments [question ''q1'' ''B'', question ''q2'' ''A''] (mount 0))
        \<lparr>selectedAnswer := ''B''\<rparr>)
   = Inr (\<lparr> assessments = [question ''q1'' ''B'', question ''q2'' ''A''], currentQuestion = 0,
            selectedAnswer = ''B'', showExplanation = True, isCorrect = Some True,
            quizCompleted = False, score = 1, startTime = 0 \<rparr>,
          [InsertAttempt \<lparr> UserAssessment.user_id = ''u1'', assessment_id = ''q1'',
                           user_answer = ''B'', is_correct = True, time_taken_seconds = 1 \<rparr>,
           UpsertProgress \<lparr> progressData.user_id = ''u1'', progressData.lesson_id = ''l1'',
                            progressData.course_id = ''c1'', progressData.status = in_progress,
                            progressData.completion_percentage = 50,
                            progressData.time_spent_minutes = 2,
                            progressData.last_accessed_at = 90000,
                            progressData.completed_at = None \<rparr>])
   \<and> (90000 - 0 + 30000) div 60000 = (2::int)
   \<and> (1499 - 0 + 500) div 1000 = (1::int)"
proof -
  have h: "step sample_env (SubmitAnswer 1499 90000)
     ((setAssessments [question ''q1'' ''B'', question ''q2'' ''A''] (mount 0))
        \<lparr>selectedAnswer := ''B''\<rparr>)
   = Inr (\<lparr> assessments = [question ''q1'' ''B'', question ''q2'' ''A''], currentQuestion = 0,
            selectedAnswer = ''B'', showExplanation = True, isCorrect = Some True,
            quizCompleted = False, score = 1, startTime = 0 \<rparr>,
          [InsertAttempt \<lparr> UserAssessment.user_id = ''u1'', assessment_id = ''q1'',
                           user_answer = ''B'', is_correct = True, time_taken_seconds = 1 \<rparr>,
           UpsertProgress \<lparr> progressData.user_id = ''u1'', progressData.lesson_id = ''l1'',
                            progressData.course_id = ''c1'', progressData.status = in_progress,
                            progressData.completion_percentage = 50,
                            progressData.time_spent_minutes = 2,
                            progressData.last_accessed_at = 90000,
                            progressData.completed_at = None \<rparr>])"
    by code_simp
  from time_accounting[OF h] h show ?thesis
    by (simp add: setAssessments_def mount_def)
qed

subsection \<open>C4: weekly statistics\<close>

text \<open>
  C4 states that \<open>weeklyStats\<close> keeps the records whose \<open>lastAccessedAt\<close> lies within the
  7 days preceding \<open>now\<close>. The source moves the local calendar date back by seven and keeps
  the wall-clock time. At 2024-03-31T12:00Z, in a zone that put its clocks forward that
  morning, the bound is 13:00Z a week earlier: a record completed at 12:30Z that day,
  6 days 23 hours and 30 minutes before \<open>now\<close>, is not counted.
\<close>

theorem clock_change_counterexample:
  "oneWeekAgo clock_change_zone 1711886400000 = 1711285200000
   \<and> calculateWeeklyStats clock_change_zone 1711886400000
         [progress_row ''l1'' ''c1'' completed 7 1711283400000 (Some 1711283400000)]
       = \<lparr> lessonsThisWeek = 0, minutesThisWeek = 0 \<rparr>
   \<and> spec_weeklyStats 1711886400000
         [progress_row ''l1'' ''c1'' completed 7 1711283400000 (Some 1711283400000)]
       = \<lparr> lessonsThisWeek = 1, minutesThisWeek = 7 \<rparr>"
  by code_simp

text \<open>
  C4, amended. \<open>calculateWeeklyStats\<close> keeps the records whose \<open>last_accessed_at\<close> is at or
  after the instant that has the same local wall-clock time seven calendar days before
  \<open>now\<close> (the comparison is \<open>\<ge>\<close>, so a record stamped exactly at that instant is kept).
  That instant is 7 times 24 hours before \<open>now\<close>, moved by the difference between the
  zone's offset at \<open>now\<close> and its offset then: when the two offsets are equal it is exactly
  7 times 24 hours before \<open>now\<close>, the result is the specification's \<open>weeklyStats\<close>, and for
  records not stamped later than \<open>now\<close> the kept records are those of the seven days up to
  \<open>now\<close>. The first component counts the kept records with status \<open>completed\<close>, the second
  sums \<open>time_spent_minutes\<close> over all kept records whatever their status; on the empty
  list the result is 0 and 0.
\<close>

lemma oneWeekAgo_offsets:
  "oneWeekAgo tza now
     = now - 604800000 + (tza now True - tza (now + tza now True - 604800000) False)"
proof -
  define t where "t = now + tza now True"
  have "MakeDate (Day t - 7) (TimeWithinDay t) = t div msPerDay * msPerDay + t mod msPerDay - 7 * msPerDay"
    by (simp add: MakeDate_def Day_def TimeWithinDay_def algebra_simps)
  also have "\<dots> = t - 7 * msPerDay" by simp
  finally have "MakeDate (Day t - 7) (TimeWithinDay t) = t - 604800000"
    by (simp add: msPerDay_def)
  then show ?thesis
    by (simp add: oneWeekAgo_def LocalTime_def UTC_def Let_def t_def)
qed

theorem calculateWeeklyStats_spec:
  "lessonsThisWeek (calculateWeeklyStats tza now rs)
     = length (filter (\<lambda>p. oneWeekAgo tza now \<le> UserProgress.last_accessed_at p
                            \<and> UserProgress.status p = completed) rs)
   \<and> minutesThisWeek (calculateWeeklyStats tza now rs)
     = sum_list (map UserProgress.time_spent_minutes
         (filter (\<lambda>p. oneWeekAgo tza now \<le> UserProgress.last_accessed_at p) rs))
   \<and> calculateWeeklyStats tza now [] = \<lparr> lessonsThisWeek = 0, minutesThisWeek = 0 \<rparr>
   \<and> oneWeekAgo tza now
       = now - 604800000 + (tza now True - tza (now + tza now True - 604800000) False)
   \<and> (tza (now + tza now True - 604800000) False = tza now True \<longrightarrow>
        oneWeekAgo tza now = now - 604800000
        \<and> calculateWeeklyStats tza now rs = spec_weeklyStats now rs
        \<and> ((\<forall>p \<in> set rs. UserProgress.last_accessed_at p \<le> now) \<longrightarrow>
             filter (\<lambda>p. oneWeekAgo tza now \<le> UserProgress.last_accessed_at p) rs
               = filter (\<lambda>p. now - 604800000 \<le> UserProgress.last_accessed_at p
                              \<and> UserProgress.last_accessed_at p \<le> now) rs))"
proof -
  have count: "filter (\<lambda>p. UserProgress.status p = completed)
          (filter (\<lambda>p. oneWeekAgo tza now \<le> UserProgress.last_accessed_at p) rs)
        = filter (\<lambda>p. oneWeekAgo tza now \<le> UserProgress.last_accessed_at p
                         \<and> UserProgress.status p = completed) rs"
    by (simp add: conj_commute)
  have same: "oneWeekAgo tza now = now - 604800000"
    if "tza (now + tza now True - 604800000) False = tza now True"
    using that by (simp add: oneWeekAgo_offsets)
  have spec: "calculateWeeklyStats tza now rs = spec_weeklyStats now rs"
    if "tza (now + tza now True - 604800000) False = tza now True"
    by (simp add: calculateWeeklyStats_def spec_weeklyStats_def same[OF that] Let_def
          foldl_minutes)
  have window: "filter (\<lambda>p. oneWeekAgo tza now \<le> UserProgress.last_accessed_at p) rs
          = filter (\<lambda>p. now - 604800000 \<le> UserProgress.last_accessed_at p
                         \<and> UserProgress.last_accessed_at p \<le> now) rs"
    if "tza (now + tza now True - 604800000) False = tza now True"
      and "\<forall>p \<in> set rs. UserProgress.last_accessed_at p \<le> now"
    using that(2) by (auto simp: same[OF that(1)] intro: filter_cong)
  show ?thesis
    using count same spec window
    by (simp add: calculateWeeklyStats_def Let_def foldl_minutes oneWeekAgo_offsets[symmetric])
qed

text \<open>
  The example of the specification, in a zone one hour ahead of UTC: one record
  completed a day ago with 10 minutes, one in progress ten days ago with 5 minutes;
  \<open>now\<close> is day 20.
\<close>

theorem calculateWeeklyStats_spec_witness:
  "fixed_zone 3600000 (1728000000 + fixed_zone 3600000 1728000000 True - 604800000) False
     = fixed_zone 3600000 1728000000 True
   \<and> list_all (\<lambda>p. UserProgress.last_accessed_at p \<le> 1728000000)
       [progress_row ''l1'' ''c1'' completed 10 1641600000 (Some 1641600000),
        progress_row ''l2'' ''c1'' in_progress 5 864000000 None]
   \<and> oneWeekAgo (fixed_zone 3600000) 1728000000 = 1123200000
   \<and> lessonsThisWeek (calculateWeeklyStats (fixed_zone 3600000) 1728000000
        [progress_row ''l1'' ''c1'' completed 10 1641600000 (Some 1641600000),
         progress_row ''l2'' ''c1'' in_progress 5 864000000 None]) = 1
   \<and> minutesThisWeek (calculateWeeklyStats (fixed_zone 3600000) 1728000000
        [progress_row ''l1'' ''c1'' completed 10 1641600000 (Some 1641600000),
         progress_row ''l2'' ''c1'' in_progress 5 864000000 None]) = 10"
proof -
  have h: "fixed_zone 3600000 (1728000000 + fixed_zone 3600000 1728000000 True - 604800000) False
     = fixed_zone 3600000 1728000000 True"
    by (simp add: fixed_zone_def)
  note spec = calculateWeeklyStats_spec
          [of "fixed_zone 3600000" 1728000000
              "[progress_row ''l1'' ''c1'' completed 10 1641600000 (Some 1641600000),
                progress_row ''l2'' ''c1'' in_progress 5 864000000 None]"]
  from spec h have e: "oneWeekAgo (fixed_zone 3600000) 1728000000 = 1728000000 - 604800000"
    by blast
  from spec have l: "lessonsThisWeek (calculateWeeklyStats (fixed_zone 3600000) 1728000000
        [progress_row ''l1'' ''c1'' completed 10 1641600000 (Some 1641600000),
         progress_row ''l2'' ''c1'' in_progress 5 864000000 None])
      = length (filter (\<lambda>p. oneWeekAgo (fixed_zone 3600000) 1728000000
                                \<le> UserProgress.last_accessed_at p
                              \<and> UserProgress.status p = completed)
        [progress_row ''l1'' ''c1'' completed 10 1641600000 (Some 1641600000),
         progress_row ''l2'' ''c1'' in_progress 5 864000000 None])"
    by blast
  from spec have m: "minutesThisWeek (calculateWeeklyStats (fixed_zone 3600000) 1728000000
        [progress_row ''l1'' ''c1'' completed 10 1641600000 (Some 1641600000),
         progress_row ''l2'' ''c1'' in_progress 5 864000000 None])
      = sum_list (map UserProgress.time_spent_minutes
         (filter (\<lambda>p. oneWeekAgo (fixed_zone 3600000) 1728000000
                          \<le> UserProgress.last_accessed_at p)
        [progress_row ''l1'' ''c1'' completed 10 1641600000 (Some 1641600000),
         progress_row ''l2'' ''c1'' in_progress 5 864000000 None]))"
    by blast
  show ?thesis unfolding l m e using h by (simp add: progress_row_def)
qed

subsection \<open>C5: course completion percentage\<close>

text \<open>
  C5 states that \<open>courseCompletionPercent\<close> returns \<open>100 * completedCount / totalCount\<close>
  rounded half up, 0 for no records, a value between 0 and 100, and 67 for 2 of 3.
  The source evaluates \<open>Math.round((completed / total) * 100)\<close>: the quotient is rounded
  to binary64 before it is multiplied. With 23 completed records of 40 the exact
  percentage is 57.5, the product is \<open>8092405580431359 / 2^47\<close>, just below it, and
  the result is 57, where rounding half up gives 58.
\<close>

theorem getCourseProgress_tie:
  "getCourseProgress
     (replicate 23 (progress_row ''l1'' ''c1'' completed 5 0 (Some 0))
      @ replicate 17 (progress_row ''l2'' ''c1'' in_progress 5 0 None)) ''c1'' = 57
   \<and> round_half_up (100 * 23) 40 = 58"
  by code_simp

text \<open>
  What the source does guarantee, for up to \<open>2^32\<close> records (the bound of an array's
  length): 0 for a course without records, a result between 0 and 100, 67 for 2 of 3,
  and the percentage rounded half up whenever the exact percentage is not halfway
  between two integers.
\<close>

lemma getCourseProgress_empty:
  "filter (\<lambda>p. UserProgress.course_id p = cid) rs = [] \<Longrightarrow> getCourseProgress rs cid = 0"
  by (simp add: getCourseProgress_def)

lemma getCourseProgress_range:
  assumes "length rs \<le> 2 ^ 32"
  shows "0 \<le> getCourseProgress rs cid \<and> getCourseProgress rs cid \<le> 100"
proof -
  define cp where "cp = filter (\<lambda>p. UserProgress.course_id p = cid) rs"
  define c where "c = length (filter (\<lambda>p. UserProgress.status p = completed) cp)"
  have ct: "c \<le> length cp" unfolding c_def by (rule length_filter_le)
  have "length cp \<le> length rs" unfolding cp_def by (rule length_filter_le)
  then have t32: "length cp \<le> 2 ^ 32" using assms by linarith
  show ?thesis
  proof (cases "0 < length cp")
    case True
    from percentage_range[OF True ct t32] show ?thesis
      using True by (simp add: getCourseProgress_def cp_def[symmetric] c_def[symmetric] Let_def)
  next
    case False
    then show ?thesis by (simp add: getCourseProgress_def cp_def[symmetric])
  qed
qed

lemma getCourseProgress_two_of_three:
  "getCourseProgress
     [progress_row ''l1'' ''c1'' completed 5 0 (Some 0),
      progress_row ''l2'' ''c1'' completed 7 0 (Some 0),
      progress_row ''l3'' ''c1'' in_progress 1 0 None] ''c1'' = 67"
  by code_simp

lemma getCourseProgress_no_tie:
  assumes "length rs \<le> 2 ^ 32"
    and "t = length (filter (\<lambda>p. UserProgress.course_id p = cid) rs)"
    and "c = length (filter (\<lambda>p. UserProgress.status p = completed)
                 (filter (\<lambda>p. UserProgress.course_id p = cid) rs))"
    and "0 < t" and "(200 * int c + int t) mod (2 * int t) \<noteq> 0"
  shows "getCourseProgress rs cid = round_half_up (100 * int c) (int t)"
proof -
  have ct: "c \<le> t" unfolding assms(2,3) by (rule length_filter_le)
  have "t \<le> length rs" unfolding assms(2) by (rule length_filter_le)
  then have t32: "t \<le> 2 ^ 32" using assms(1) by linarith
  from percentage_no_tie[OF assms(4) ct t32 assms(5)] show ?thesis
    using assms(4) by (simp add: getCourseProgress_def assms(2,3) Let_def)
qed

subsection \<open>C6: active courses\<close>

text \<open>
  C6. \<open>activeCourses\<close> returns exactly the courses that have at least one record with the
  course's id and a status other than \<open>not_started\<close>, that is \<open>in_progress\<close> or
  \<open>completed\<close>; a course all of whose records are \<open>not_started\<close> is left out; the result
  keeps the order of the input course list.
\<close>

theorem activeCourses_spec:
  "activeCourses cs rs
     = filter (\<lambda>c. \<exists>p \<in> set rs. UserProgress.course_id p = Course.ident c
                                  \<and> UserProgress.status p \<noteq> not_started) cs
   \<and> subseq (activeCourses cs rs) cs
   \<and> (c \<in> set (activeCourses cs rs) \<longleftrightarrow>
        c \<in> set cs \<and> (\<exists>p \<in> set rs. UserProgress.course_id p = Course.ident c
             \<and> (UserProgress.status p = in_progress \<or> UserProgress.status p = completed)))
   \<and> ((\<forall>p \<in> set rs. UserProgress.course_id p = Course.ident c
          \<longrightarrow> UserProgress.status p = not_started) \<longrightarrow> c \<notin> set (activeCourses cs rs))"
proof -
  have ne: "\<And>s. s \<noteq> not_started \<longleftrightarrow> s = in_progress \<or> s = completed"
    by (case_tac s) simp_all
  show ?thesis
    unfolding activeCourses_def list_ex_iff
    by (auto simp: ne)
qed

theorem activeCourses_spec_witness:
  "list_all (\<lambda>p. UserProgress.course_id p \<noteq> ''c2'' \<or> UserProgress.status p = not_started)
       [progress_row ''l1'' ''c1'' in_progress 5 0 None,
        progress_row ''l2'' ''c2'' not_started 0 0 None,
        progress_row ''l3'' ''c3'' completed 9 0 (Some 0)]
   \<and> \<lparr> Course.ident = ''c2'' \<rparr> \<notin> set (activeCourses
        [\<lparr> Course.ident = ''c3'' \<rparr>, \<lparr> Course.ident = ''c2'' \<rparr>, \<lparr> Course.ident = ''c1'' \<rparr>]
        [progress_row ''l1'' ''c1'' in_progress 5 0 None,
         progress_row ''l2'' ''c2'' not_started 0 0 None,
         progress_row ''l3'' ''c3'' completed 9 0 (Some 0)])
   \<and> activeCourses
        [\<lparr> Course.ident = ''c3'' \<rparr>, \<lparr> Course.ident = ''c2'' \<rparr>, \<lparr> Course.ident = ''c1'' \<rparr>]
        [progress_row ''l1'' ''c1'' in_progress 5 0 None,
         progress_row ''l2'' ''c2'' not_started 0 0 None,
         progress_row ''l3'' ''c3'' completed 9 0 (Some 0)]
       = [\<lparr> Course.ident = ''c3'' \<rparr>, \<lparr> Course.ident = ''c1'' \<rparr>]"
  using activeCourses_spec
          [of "[\<lparr> Course.ident = ''c3'' \<rparr>, \<lparr> Course.ident = ''c2'' \<rparr>, \<lparr> Course.ident = ''c1'' \<rparr>]"
              "[progress_row ''l1'' ''c1'' in_progress 5 0 None,
                progress_row ''l2'' ''c2'' not_started 0 0 None,
                progress_row ''l3'' ''c3'' completed 9 0 (Some 0)]"
              "\<lparr> Course.ident = ''c2'' \<rparr>"]
  by (simp add: progress_row_def)

subsection \<open>C7: submitting without a selected answer\<close>

text \<open>
  C7. In state \<open>AnsweringQuestion i\<close>, submitting while the selected answer is empty
  changes nothing: the session state (question index, score, selection, explanation flag)
  is the same afterwards, and no attempt is logged and no progress write is issued.
\<close>

theorem submit_empty_answer_noop:
  assumes "AnsweringQuestion i st" and "selectedAnswer st = []"
  shows "handleAnswerSubmit env t1 t2 st = Inr (st, [])
       \<and> run env [SubmitAnswer t1 t2] (st, fx) = Inr (st, fx)"
  using assms(2) by (simp add: handleAnswerSubmit_def split: option.splits)

theorem submit_empty_answer_noop_witness:
  "AnsweringQuestion 0 (setAssessments [question ''q1'' ''B''] (mount 0))
   \<and> selectedAnswer (setAssessments [question ''q1'' ''B''] (mount 0)) = []
   \<and> handleAnswerSubmit sample_env 1000 2000 (setAssessments [question ''q1'' ''B''] (mount 0))
       = Inr (setAssessments [question ''q1'' ''B''] (mount 0), [])"
proof -
  have h1: "AnsweringQuestion 0 (setAssessments [question ''q1'' ''B''] (mount 0))"
    by (simp add: AnsweringQuestion_def setAssessments_def mount_def)
  have h2: "selectedAnswer (setAssessments [question ''q1'' ''B''] (mount 0)) = []"
    by (simp add: setAssessments_def mount_def)
  from submit_empty_answer_noop[OF h1 h2, of sample_env 1000 2000] h1 h2
  show ?thesis by simp
qed

subsection \<open>C8: submitting an answer\<close>

text \<open>
  C8 states that submitting a non-empty answer in state \<open>AnsweringQuestion i\<close> compares
  it with the assessment's \<open>correct_answer\<close> by string equality, records one attempt,
  adds 1 to the score exactly when the answer is correct, and writes progress with
  status \<open>in_progress\<close> and percentage \<open>round(100 * (i + 1) / totalQuestions)\<close>.
  The percentage is computed as \<open>Math.round(((i + 1) / n) * 100)\<close>, with the same
  rounding of the quotient as in \<open>getCourseProgress\<close>: the answer to question 23 of 40
  is written with 57, where 57.5 rounded half up is 58.
\<close>

theorem submit_tie_percentage:
  "AnsweringQuestion 22
     ((setAssessments (replicate 40 (question ''q'' ''B'')) (mount 0))
        \<lparr>currentQuestion := 22, selectedAnswer := ''B'', score := 22\<rparr>)
   \<and> handleAnswerSubmit sample_env 1000 2000
        ((setAssessments (replicate 40 (question ''q'' ''B'')) (mount 0))
           \<lparr>currentQuestion := 22, selectedAnswer := ''B'', score := 22\<rparr>)
     = Inr (\<lparr> assessments = replicate 40 (question ''q'' ''B''), currentQuestion = 22,
              selectedAnswer = ''B'', showExplanation = True, isCorrect = Some True,
              quizCompleted = False, score = 23, startTime = 0 \<rparr>,
            [InsertAttempt \<lparr> UserAssessment.user_id = ''u1'', assessment_id = ''q'',
                             user_answer = ''B'', is_correct = True, time_taken_seconds = 1 \<rparr>,
             UpsertProgress \<lparr> progressData.user_id = ''u1'', progressData.lesson_id = ''l1'',
                              progressData.course_id = ''c1'', progressData.status = in_progress,
                              progressData.completion_percentage = 57,
                              progressData.time_spent_minutes = 0,
                              progressData.last_accessed_at = 2000,
                              progressData.completed_at = None \<rparr>])
   \<and> round_half_up (100 * (22 + 1)) 40 = 58"
  by code_simp

text \<open>
  The rest of C8 holds as stated; the general form of the submission, and the percentage
  whenever \<open>100 * (i + 1) / n\<close> is not halfway between two integers.
\<close>

lemma handleAnswerSubmit_percentage:
  assumes "AnsweringQuestion i st" and "length (assessments st) \<le> 2 ^ 32"
    and "(200 * int (i + 1) + int (length (assessments st)))
           mod (2 * int (length (assessments st))) \<noteq> 0"
  shows "Math_round (js_mul (js_div (of_nat (i + 1)) (of_nat (length (assessments st)))) 100)
           = round_half_up (100 * int (i + 1)) (int (length (assessments st)))"
proof -
  have "i < length (assessments st)" using assms(1) by (simp add: AnsweringQuestion_def)
  then have "0 < length (assessments st)" "i + 1 \<le> length (assessments st)" by linarith+
  then show ?thesis using assms(2,3) by (rule percentage_no_tie)
qed

subsection \<open>C9: a quiz of three questions, all answered correctly\<close>

text \<open>
  C9. A signed-in user opens a quiz lesson with exactly three assessments, selects the
  correct answer of each question (a non-empty string), submits it and advances. The
  run ends with score 3 and the quiz completed, on the third question; exactly three
  attempts are logged, one for each assessment in order, each with the correct answer
  and marked correct; the progress writes are \<open>in_progress\<close> with 0, 33, 67 and 100, then
  \<open>completed\<close> with 100, which is the last one. The clock readings are arbitrary.
\<close>

lemma percentages_of_three:
  "Math_round (js_mul (js_div 1 3) 100) = 33"
  "Math_round (js_mul (js_div 2 3) 100) = 67"
  "Math_round (js_mul (js_div 3 3) 100) = 100"
  by code_simp+

theorem quiz_three_correct:
  assumes "user env = Some uid"
    and "Assessment.correct_answer a1 \<noteq> []"
    and "Assessment.correct_answer a2 \<noteq> []"
    and "Assessment.correct_answer a3 \<noteq> []"
  shows "\<exists>st fx.
      run env
        [LessonOpened t0, AssessmentsLoaded [a1, a2, a3],
         SelectOption (Assessment.correct_answer a1), SubmitAnswer t1 t1', NextQuestion n1,
         SelectOption (Assessment.correct_answer a2), SubmitAnswer t2 t2', NextQuestion n2,
         SelectOption (Assessment.correct_answer a3), SubmitAnswer t3 t3', NextQuestion n3]
        (mount m, []) = Inr (st, fx)
      \<and> score st = 3 \<and> quizCompleted st
      \<and> currentQuestion st = 2 \<and> assessments st = [a1, a2, a3]
      \<and> length (attempts fx) = 3
      \<and> map UserAssessment.assessment_id (attempts fx)
          = [Assessment.ident a1, Assessment.ident a2, Assessment.ident a3]
      \<and> map UserAssessment.user_answer (attempts fx)
          = [Assessment.correct_answer a1, Assessment.correct_answer a2,
             Assessment.correct_answer a3]
      \<and> list_all UserAssessment.is_correct (attempts fx)
      \<and> map progressData.status (upserts fx)
          = [in_progress, in_progress, in_progress, in_progress, completed]
      \<and> map progressData.completion_percentage (upserts fx) = [0, 33, 67, 100, 100]
      \<and> progressData.status (last (upserts fx)) = completed
      \<and> progressData.completion_percentage (last (upserts fx)) = 100"
  using assms
  by (simp add: mount_def openSession_def setAssessments_def selectOption_def
        handleAnswerSubmit_def handleNextQuestion_def updateProgress_def Let_def
        upserts_append attempts_append percentages_of_three)

theorem quiz_three_correct_witness:
  "user sample_env = Some ''u1''
   \<and> Assessment.correct_answer (question ''q1'' ''A'') \<noteq> []
   \<and> Assessment.correct_answer (question ''q2'' ''B'') \<noteq> []
   \<and> Assessment.correct_answer (question ''q3'' ''C'') \<noteq> []
   \<and> (\<exists>st fx.
      run sample_env
        [LessonOpened 10,
         AssessmentsLoaded [question ''q1'' ''A'', question ''q2'' ''B'', question ''q3'' ''C''],
         SelectOption (Assessment.correct_answer (question ''q1'' ''A'')),
         SubmitAnswer 1000 1100, NextQuestion 2000,
         SelectOption (Assessment.correct_answer (question ''q2'' ''B'')),
         SubmitAnswer 3000 3100, NextQuestion 4000,
         SelectOption (Assessment.correct_answer (question ''q3'' ''C'')),
         SubmitAnswer 5000 5100, NextQuestion 6000]
        (mount 0, []) = Inr (st, fx)
      \<and> score st = 3 \<and> quizCompleted st
      \<and> currentQuestion st = 2
      \<and> assessments st = [question ''q1'' ''A'', question ''q2'' ''B'', question ''q3'' ''C'']
      \<and> length (attempts fx) = 3
      \<and> map UserAssessment.assessment_id (attempts fx)
          = [Assessment.ident (question ''q1'' ''A''), Assessment.ident (question ''q2'' ''B''),
             Assessment.ident (question ''q3'' ''C'')]
      \<and> map UserAssessment.user_answer (attempts fx)
          = [Assessment.correct_answer (question ''q1'' ''A''),
             Assessment.correct_answer (question ''q2'' ''B''),
             Assessment.correct_answer (question ''q3'' ''C'')]
      \<and> list_all UserAssessment.is_correct (attempts fx)
      \<and> map progressData.status (upserts fx)
          = [in_progress, in_progress, in_progress, in_progress, completed]
      \<and> map progressData.completion_percentage (upserts fx) = [0, 33, 67, 100, 100]
      \<and> progressData.status (last (upserts fx)) = completed
      \<and> progressData.completion_percentage (last (upserts fx)) = 100)"
proof -
  have h0: "user sample_env = Some ''u1''" by (simp add: sample_env_def)
  have h1: "Assessment.correct_answer (question ''q1'' ''A'') \<noteq> []" by (simp add: question_def)
  have h2: "Assessment.correct_answer (question ''q2'' ''B'') \<noteq> []" by (simp add: question_def)
  have h3: "Assessment.correct_answer (question ''q3'' ''C'') \<noteq> []" by (simp add: question_def)
  note run = quiz_three_correct
      [OF h0 h1 h2 h3, of 10 1000 1100 2000 3000 3100 4000 5000 5100 6000 0]
  show ?thesis by (intro conjI h0 h1 h2 h3 run)
qed

subsection \<open>C10: \<open>completed_at\<close> of a record that is no longer completed\<close>

text \<open>
  C10. A progress write of the session with a status other than \<open>completed\<close> has no
  \<open>completed_at\<close> key. When it updates the existing record of the user and lesson, every
  record of the table keeps the \<open>completed_at\<close> it had; the updated record takes the
  status and percentage of the write. Re-opening a completed lesson sets its record to
  \<open>in_progress\<close> and 0 and leaves the old completion stamp in place.
\<close>

theorem completed_at_kept:
  assumes "step env ev st = Inr (st', fx)"
    and "d \<in> set (upserts fx)"
    and "progressData.status d \<noteq> completed"
    and "filter (same_key d) table = [r]"
  shows "progressData.completed_at d = None
       \<and> upsertProgress fresh server_now d table
           = map (\<lambda>x. if UserProgress.ident x = UserProgress.ident r
                        then update_columns d x else x) table
       \<and> map UserProgress.completed_at (upsertProgress fresh server_now d table)
           = map UserProgress.completed_at table
       \<and> update_columns d r \<in> set (upsertProgress fresh server_now d table)
       \<and> UserProgress.status (update_columns d r) = progressData.status d
       \<and> UserProgress.completion_percentage (update_columns d r)
           = progressData.completion_percentage d
       \<and> UserProgress.completed_at (update_columns d r) = UserProgress.completed_at r"
proof -
  have none: "progressData.completed_at d = None"
    using step_upsert_completed_at[OF assms(1,2)] assms(3) by simp
  have keep: "\<And>x. UserProgress.completed_at (update_columns d x) = UserProgress.completed_at x"
    by (simp add: update_columns_def none)
  have up: "upsertProgress fresh server_now d table
           = map (\<lambda>x. if UserProgress.ident x = UserProgress.ident r
                        then update_columns d x else x) table"
    by (simp add: upsertProgress_def maybeSingle_def assms(4))
  have "r \<in> set (filter (same_key d) table)" by (simp add: assms(4))
  then have rin: "r \<in> set table" by simp
  have "update_columns d r \<in> set (upsertProgress fresh server_now d table)"
    unfolding up using rin by (auto simp: image_iff intro!: bexI[of _ r])
  moreover have "map UserProgress.completed_at (upsertProgress fresh server_now d table)
           = map UserProgress.completed_at table"
    unfolding up by (simp add: keep o_def if_distrib cong: if_cong)
  ultimately show ?thesis
    using none up keep by (simp add: update_columns_def)
qed

theorem completed_at_kept_witness:
  "step sample_env (LessonOpened 5000) (mount 5000)
     = Inr (mount 5000,
            [FetchAssessments ''l1'',
             UpsertProgress
               \<lparr> progressData.user_id = ''u1'', progressData.lesson_id = ''l1'',
                 progressData.course_id = ''c1'', progressData.status = in_progress,
                 progressData.completion_percentage = 0,
                 progressData.time_spent_minutes = 0,
                 progressData.last_accessed_at = 5000,
                 progressData.completed_at = None \<rparr>])
   \<and> filter (same_key
         \<lparr> progressData.user_id = ''u1'', progressData.lesson_id = ''l1'',
           progressData.course_id = ''c1'', progressData.status = in_progress,
           progressData.completion_percentage = 0,
           progressData.time_spent_minutes = 0,
           progressData.last_accessed_at = 5000,
           progressData.completed_at = None \<rparr>)
         [progress_row ''l0'' ''c1'' completed 3 50 (Some 50),
          progress_row ''l1'' ''c1'' completed 12 100 (Some 100)]
       = [progress_row ''l1'' ''c1'' completed 12 100 (Some 100)]
   \<and> upsertProgress ''fresh'' 5001
         \<lparr> progressData.user_id = ''u1'', progressData.lesson_id = ''l1'',
           progressData.course_id = ''c1'', progressData.status = in_progress,
           progressData.completion_percentage = 0,
           progressData.time_spent_minutes = 0,
           progressData.last_accessed_at = 5000,
           progressData.completed_at = None \<rparr>
         [progress_row ''l0'' ''c1'' completed 3 50 (Some 50),
          progress_row ''l1'' ''c1'' completed 12 100 (Some 100)]
       = [progress_row ''l0'' ''c1'' completed 3 50 (Some 50),
          \<lparr> UserProgress.ident = ''p-l1'', UserProgress.user_id = ''u1'',
            UserProgress.lesson_id = ''l1'', UserProgress.course_id = ''c1'',
            UserProgress.status = in_progress, UserProgress.completion_percentage = 0,
            UserProgress.time_spent_minutes = 0, UserProgress.started_at = 0,
            UserProgress.completed_at = Some 100, UserProgress.last_accessed_at = 5000 \<rparr>]"
proof -
  let ?d = "\<lparr> progressData.user_id = ''u1'', progressData.lesson_id = ''l1'',
           progressData.course_id = ''c1'', progressData.status = in_progress,
           progressData.completion_percentage = 0,
           progressData.time_spent_minutes = 0,
           progressData.last_accessed_at = 5000,
           progressData.completed_at = None \<rparr>"
  let ?table = "[progress_row ''l0'' ''c1'' completed 3 50 (Some 50),
          progress_row ''l1'' ''c1'' completed 12 100 (Some 100)]"
  have h1: "step sample_env (LessonOpened 5000) (mount 5000)
     = Inr (mount 5000, [FetchAssessments ''l1'', UpsertProgress ?d])"
    by code_simp
  have h2: "?d \<in> set (upserts [FetchAssessments ''l1'', UpsertProgress ?d])" by simp
  have h3: "progressData.status ?d \<noteq> completed" by simp
  have h4: "filter (same_key ?d) ?table = [progress_row ''l1'' ''c1'' completed 12 100 (Some 100)]"
    by (simp add: same_key_def progress_row_def)
  from completed_at_kept[OF h1 h2 h3 h4, of "''fresh''" 5001] h1 h4
  show ?thesis by (simp add: progress_row_def update_columns_def)
qed

end
